theory Spec2Isabelle
  imports Main "HOL-Library.Word" "HOL-Library.Monad_Syntax"
begin

section \<open>The request processor of mort (pkg/processor/processor.go)\<close>

text \<open>
  The processor is Go code that works on pointers to mutable responses, calls external
  packages (storage, response cache, collapse lock, throttler, image engine) and waits on
  channels. The embedding makes these explicit:
  \<^item> a \<^verbatim>\<open>*response.Response\<close> is a reference into a store of responses (the field
    \<open>heap\<close> of the world), so that \<^verbatim>\<open>res.Close()\<close>, \<^verbatim>\<open>res.Set(h, v)\<close> and
    \<^verbatim>\<open>cacheRes.StatusCode = sc\<close> are updates of the store and pointer identity is equality
    of references;
  \<^item> every call into an external package is appended to the \<open>trace\<close> of the world, and its
    answer is read from the environment \<open>env\<close>;
  \<^item> every \<^verbatim>\<open>select\<close> takes the channel that fires from a schedule given as argument,
    and the trace records each time the Done channel of the context is taken
    (\<open>CtxDoneTaken\<close>);
  \<^item> a nil dereference or an index out of range (a Go panic) is the result \<open>None\<close>.
\<close>

subsection \<open>Data\<close>

text \<open>transforms.Transforms: the processor reads the flag NotEmpty only; the operations
  themselves are opaque to it.\<close>

record Transforms =
  NotEmpty :: bool
  Ops :: "string list"

text \<open>object.FileObject (object/file_object.go), with the fields Debug and Ctx that
  processor.go reads. Of the context only the value stored under middleware.S3AuthCtxKey is
  kept (\<open>CtxS3Auth\<close> holds when \<^verbatim>\<open>ctx.Value(middleware.S3AuthCtxKey) != nil\<close>); its Done
  channel is part of the schedules below.\<close>

datatype FileObject = FileObject
  (Bucket: string)
  (Key: string)
  (Transforms: Transforms)
  (Parent: "FileObject option")
  (CheckParent: bool)
  (Debug: bool)
  (CtxS3Auth: bool)

definition HasParent :: "FileObject \<Rightarrow> bool" where
  "HasParent o' = (Parent o' \<noteq> None)"

definition HasTransform :: "FileObject \<Rightarrow> bool" where
  "HasTransform o' = (NotEmpty (Transforms o') = True)"

text \<open>Modelled from the spec: the package response is not among the sources. A response has
  a status code, headers, a content length (-1 = unknown), a body, an optional error, the
  transforms that produced it, and is closable.\<close>

record Response =
  StatusCode :: int
  Headers :: "(string \<times> string) list"
  ContentLength :: int
  Body :: string
  ErrorValue :: "string option"
  ResTransforms :: "Transforms list"
  Closed :: bool

type_synonym ref = nat

text \<open>http.Request, as far as the processor reads it: the method and the parsed query
  (url.Values, a map from a key to the list of its values).\<close>

record Request =
  Method :: string
  Query :: "(string \<times> string list) list"
  ReqHeader :: "(string \<times> string) list"
  ReqContentLength :: int
  ReqBody :: string

text \<open>config.Server and config.Config, as far as the processor reads them.\<close>

record Placeholder =
  Buf :: string
  ContentType :: string

record Server =
  RequestTimeout :: int
  LockTimeout :: int
  PlaceholderStr :: string
  ServerPlaceholder :: Placeholder
  MaxCacheItemSize :: int

record HeaderYaml =
  StatusCodes :: "int list"
  Values :: "(string \<times> string) list"
  Override :: bool

record Bucket_cfg =
  BucketHeaders :: "(string \<times> string) list"

record Config =
  CfgHeaders :: "HeaderYaml list"
  Buckets :: "(string \<times> Bucket_cfg) list"

text \<open>RequestProcessor: the two durations are time.Duration values, 64-bit counts of
  nanoseconds.\<close>

record RequestProcessor =
  processTimeout :: "64 word"
  lockTimeout :: "64 word"
  serverConfig :: Server

definition Second :: "64 word" where
  "Second = 1000000000"

definition NewRequestProcessor :: "Server \<Rightarrow> RequestProcessor" where
  "NewRequestProcessor cfg =
     \<lparr> processTimeout = word_of_int (RequestTimeout cfg) * Second,
       lockTimeout = word_of_int (LockTimeout cfg) * Second,
       serverConfig = cfg \<rparr>"

subsection \<open>The world: store of responses, trace of external calls\<close>

datatype effect =
    StorageGet FileObject
  | StorageHead FileObject
  | StorageList FileObject int string string string
  | StorageSet FileObject
  | StorageDelete FileObject
  | CacheGet FileObject
  | GoCacheSet FileObject ref
  | GoCacheDelete FileObject
  | GoStorageSet FileObject ref
  | GoPlaceholder FileObject int
  | LockCall string
  | NotifyAndRelease string ref
  | CancelSent
  | ThrottlerTake
  | ThrottlerRelease
  | EngineProcess ref
  | NewTimer "64 word"
  | PreProcessHook
  | PostProcessHook ref
  | CloseCancel
  | CtxDoneTaken

record world =
  heap :: "ref \<Rightarrow> Response"
  nextRef :: ref
  trace :: "effect list"
  lookups :: nat

definition alloc :: "Response \<Rightarrow> world \<Rightarrow> ref \<times> world" where
  "alloc v w = (nextRef w, w\<lparr>heap := (heap w)(nextRef w := v), nextRef := Suc (nextRef w)\<rparr>)"

definition emit :: "effect \<Rightarrow> world \<Rightarrow> world" where
  "emit e w = w\<lparr>trace := trace w @ [e]\<rparr>"

definition modify :: "ref \<Rightarrow> (Response \<Rightarrow> Response) \<Rightarrow> world \<Rightarrow> world" where
  "modify r f w = w\<lparr>heap := (heap w)(r := f (heap w r))\<rparr>"

text \<open>What the external packages answer. The response cache is shared with other requests
  and changes under them, so the answer of a lookup depends on how many lookups the request
  has made before (\<open>lookups\<close>).\<close>

record env =
  storage_Get :: "FileObject \<Rightarrow> Response"
  storage_Head :: "FileObject \<Rightarrow> Response"
  storage_List :: "FileObject \<Rightarrow> int \<Rightarrow> string \<Rightarrow> string \<Rightarrow> string \<Rightarrow> Response"
  storage_Set :: "FileObject \<Rightarrow> Request \<Rightarrow> Response"
  storage_Delete :: "FileObject \<Rightarrow> Response"
  cache_Get :: "nat \<Rightarrow> FileObject \<Rightarrow> Response option"
  IsCacheable :: "Response \<Rightarrow> bool"
  IsImage :: "Response \<Rightarrow> bool"
  CopyFails :: "Response \<Rightarrow> bool"
  NewFileErrorObject :: "string \<Rightarrow> FileObject \<Rightarrow> FileObject option"
  lock_Lock :: "string \<Rightarrow> bool"
  throttler_Take :: bool
  transforms_Merge :: "Transforms list \<Rightarrow> Transforms list"
  engine_Process :: "Response \<Rightarrow> FileObject \<Rightarrow> Transforms list \<Rightarrow> string + Response"
  mortConfig :: Config
  FillWithRequest :: "Request \<Rightarrow> FileObject \<Rightarrow> FileObject"
  PreProcess :: "FileObject \<Rightarrow> Request \<Rightarrow> FileObject"

subsection \<open>Responses\<close>

text \<open>Modelled from the spec: the constructors and methods of the package response, which
  is not among the sources. NewError, NewString and NewBuf create a response with the given
  status code; Close marks it closed; Copy gives a new response with an independent stream,
  or fails; Set stores a header; Headers.Get reads it, the empty string when it is absent.\<close>

definition emptyResponse :: Response where
  "emptyResponse = \<lparr> StatusCode = 0, Headers = [], ContentLength = -1, Body = [],
     ErrorValue = None, ResTransforms = [], Closed = False \<rparr>"

definition NewError :: "int \<Rightarrow> string \<Rightarrow> world \<Rightarrow> ref \<times> world" where
  "NewError sc err w = alloc (emptyResponse\<lparr>StatusCode := sc, ErrorValue := Some err\<rparr>) w"

definition NewString :: "int \<Rightarrow> string \<Rightarrow> world \<Rightarrow> ref \<times> world" where
  "NewString sc s w =
     alloc (emptyResponse\<lparr>StatusCode := sc, ContentLength := int (length s), Body := s\<rparr>) w"

definition NewBuf :: "int \<Rightarrow> string \<Rightarrow> world \<Rightarrow> ref \<times> world" where
  "NewBuf sc b w =
     alloc (emptyResponse\<lparr>StatusCode := sc, ContentLength := int (length b), Body := b\<rparr>) w"

definition Close :: "ref \<Rightarrow> world \<Rightarrow> world" where
  "Close r w = modify r (\<lambda>v. v\<lparr>Closed := True\<rparr>) w"

definition HasError :: "Response \<Rightarrow> bool" where
  "HasError v = (ErrorValue v \<noteq> None)"

definition Error :: "Response \<Rightarrow> string" where
  "Error v = (case ErrorValue v of None \<Rightarrow> [] | Some e \<Rightarrow> e)"

definition HeadersGet :: "Response \<Rightarrow> string \<Rightarrow> string" where
  "HeadersGet v h = (case map_of (Headers v) h of None \<Rightarrow> [] | Some x \<Rightarrow> x)"

definition Set :: "ref \<Rightarrow> string \<Rightarrow> string \<Rightarrow> world \<Rightarrow> world" where
  "Set r h v w = modify r (\<lambda>x. x\<lparr>Headers := (h, v) # filter (\<lambda>p. fst p \<noteq> h) (Headers x)\<rparr>) w"

definition SetContentType :: "ref \<Rightarrow> string \<Rightarrow> world \<Rightarrow> world" where
  "SetContentType r ct w = Set r ''Content-Type'' ct w"

definition SetTransforms :: "ref \<Rightarrow> Transforms list \<Rightarrow> world \<Rightarrow> world" where
  "SetTransforms r ts w = modify r (\<lambda>x. x\<lparr>ResTransforms := ts\<rparr>) w"

definition Copy :: "env \<Rightarrow> ref \<Rightarrow> world \<Rightarrow> ref option \<times> world" where
  "Copy E r w =
     (if CopyFails E (heap w r) then (None, w)
      else (case alloc (heap w r) w of (c, w') \<Rightarrow> (Some c, w')))"

text \<open>The calls into storage and into the response cache: the answer becomes a new response
  of the store, the call an entry of the trace.\<close>

definition storageGet :: "env \<Rightarrow> FileObject \<Rightarrow> world \<Rightarrow> ref \<times> world" where
  "storageGet E o' w = alloc (storage_Get E o') (emit (StorageGet o') w)"

definition storageHead :: "env \<Rightarrow> FileObject \<Rightarrow> world \<Rightarrow> ref \<times> world" where
  "storageHead E o' w = alloc (storage_Head E o') (emit (StorageHead o') w)"

definition storageList ::
  "env \<Rightarrow> FileObject \<Rightarrow> int \<Rightarrow> string \<Rightarrow> string \<Rightarrow> string \<Rightarrow> world \<Rightarrow> ref \<times> world" where
  "storageList E o' maxKeys delimeter prefix marker w =
     alloc (storage_List E o' maxKeys delimeter prefix marker)
       (emit (StorageList o' maxKeys delimeter prefix marker) w)"

definition storageSet :: "env \<Rightarrow> FileObject \<Rightarrow> Request \<Rightarrow> world \<Rightarrow> ref \<times> world" where
  "storageSet E o' req w = alloc (storage_Set E o' req) (emit (StorageSet o') w)"

definition storageDelete :: "env \<Rightarrow> FileObject \<Rightarrow> world \<Rightarrow> ref \<times> world" where
  "storageDelete E o' w = alloc (storage_Delete E o') (emit (StorageDelete o') w)"

definition responseCacheGet :: "env \<Rightarrow> FileObject \<Rightarrow> world \<Rightarrow> ref option \<times> world" where
  "responseCacheGet E o' w =
     (let w1 = (emit (CacheGet o') w)\<lparr>lookups := Suc (lookups w)\<rparr>
      in case cache_Get E (lookups w) o' of
           None \<Rightarrow> (None, w1)
         | Some v \<Rightarrow> (case alloc v w1 of (r, w2) \<Rightarrow> (Some r, w2)))"

subsection \<open>strconv.Atoi\<close>

text \<open>strconv.Atoi of the Go standard library on a 64-bit platform, with the error it
  returns: a short string (1 to 18 bytes) takes the fast path, every other one goes through
  ParseInt and ParseUint in base 10, which stop at the first byte that is not a digit
  (value 0, a syntax error) or at the first overflow (the largest value, a range error),
  whichever comes first.\<close>

datatype atoi_err = NoErr | ErrSyntax | ErrRange

definition isDigit :: "char \<Rightarrow> bool" where
  "isDigit c = (48 \<le> (of_char c :: nat) \<and> (of_char c :: nat) \<le> 57)"

definition digitVal :: "char \<Rightarrow> nat" where
  "digitVal c = of_char c - 48"

definition maxUint64 :: nat where
  "maxUint64 = 18446744073709551615"

fun ParseUint_loop :: "nat \<Rightarrow> string \<Rightarrow> nat \<times> atoi_err" where
  "ParseUint_loop n [] = (n, NoErr)"
| "ParseUint_loop n (c # cs) =
     (if \<not> isDigit c then (0, ErrSyntax)
      else if n \<ge> maxUint64 div 10 + 1 then (maxUint64, ErrRange)
      else (let n1 = n * 10 + digitVal c
            in if n1 > maxUint64 then (maxUint64, ErrRange) else ParseUint_loop n1 cs))"

definition ParseUint :: "string \<Rightarrow> nat \<times> atoi_err" where
  "ParseUint s = (if s = [] then (0, ErrSyntax) else ParseUint_loop 0 s)"

definition ParseInt :: "string \<Rightarrow> int \<times> atoi_err" where
  "ParseInt s =
     (case s of
        [] \<Rightarrow> (0, ErrSyntax)
      | c # cs \<Rightarrow>
          (let neg = (c = CHR ''-'');
               s1 = (if c = CHR ''+'' \<or> c = CHR ''-'' then cs else s)
           in case ParseUint s1 of (un, err) \<Rightarrow>
                if err = ErrSyntax then (0, ErrSyntax)
                else if \<not> neg \<and> un \<ge> 2 ^ 63 then (2 ^ 63 - 1, ErrRange)
                else if neg \<and> un > 2 ^ 63 then (- (2 ^ 63), ErrRange)
                else (if neg then - int un else int un, NoErr)))"

fun Atoi_fast :: "int \<Rightarrow> string \<Rightarrow> int option" where
  "Atoi_fast n [] = Some n"
| "Atoi_fast n (ch # cs) =
     (if \<not> isDigit ch then None else Atoi_fast (n * 10 + int (digitVal ch)) cs)"

definition Atoi :: "string \<Rightarrow> int \<times> atoi_err" where
  "Atoi s =
     (case s of
        [] \<Rightarrow> ParseInt s
      | c # cs \<Rightarrow>
          if length s < 19 then
            (let s1 = (if c = CHR ''-'' \<or> c = CHR ''+'' then cs else s)
             in if length s1 < 1 then (0, ErrSyntax)
                else (case Atoi_fast 0 s1 of
                        None \<Rightarrow> (0, ErrSyntax)
                      | Some n \<Rightarrow> (if c = CHR ''-'' then - n else n, NoErr)))
          else ParseInt s)"

subsection \<open>Bucket listing: handleS3Get\<close>

definition s3LocationStr :: string where
  \<open>s3LocationStr = ''<?xml version="1.0" encoding="UTF-8"?><LocationConstraint xmlns="http://s3.amazonaws.com/doc/2006-03-01/">EU</LocationConstraint>''\<close>

text \<open>\<^verbatim>\<open>vs[0]\<close> on a slice: index out of range (a panic) on the empty one.\<close>

definition index0 :: "'a list \<Rightarrow> 'a option" where
  "index0 vs = (case vs of [] \<Rightarrow> None | v # _ \<Rightarrow> Some v)"

definition handleS3Get :: "env \<Rightarrow> Request \<Rightarrow> FileObject \<Rightarrow> world \<Rightarrow> (ref \<times> world) option" where
  "handleS3Get E req obj w =
     (let query = Query req in
      case map_of query ''location'' of
        Some _ \<Rightarrow> Some (NewString 200 s3LocationStr w)
      | None \<Rightarrow>
          do {
            maxKeys \<leftarrow> (case map_of query ''max-keys'' of
                          None \<Rightarrow> Some 1000
                        | Some maxKeysQuery \<Rightarrow> map_option (\<lambda>v. fst (Atoi v)) (index0 maxKeysQuery));
            delimeter \<leftarrow> (case map_of query ''delimeter'' of
                          None \<Rightarrow> Some []
                        | Some delimeterQuery \<Rightarrow> index0 delimeterQuery);
            prefix \<leftarrow> (case map_of query ''prefix'' of
                          None \<Rightarrow> Some []
                        | Some prefixQuery \<Rightarrow> index0 prefixQuery);
            marker \<leftarrow> (case map_of query ''marker'' of
                          None \<Rightarrow> Some []
                        | Some markerQuery \<Rightarrow> index0 markerQuery);
            Some (storageList E obj maxKeys delimeter prefix marker w)
          })"

subsection \<open>Header decoration: updateHeaders\<close>

text \<open>The two loops over a Go map of headers run over its entries in some order: the order
  of the list.\<close>

definition bucketHeadersLoop :: "ref \<Rightarrow> (string \<times> string) list \<Rightarrow> world \<Rightarrow> world" where
  "bucketHeadersLoop res hs w =
     foldl (\<lambda>w (h, v). if HeadersGet (heap w res) h = [] then Set res h v w else w) w hs"

definition valuesLoop :: "ref \<Rightarrow> HeaderYaml \<Rightarrow> world \<Rightarrow> world" where
  "valuesLoop res headerPred w =
     foldl (\<lambda>w (h, v).
              if Override headerPred then Set res h v w
              else if HeadersGet (heap w res) h = [] then Set res h v w
              else w) w (Values headerPred)"

text \<open>The loop over the header policies: \<open>Some\<close> is the return from inside the loop, at the
  first policy one of whose status codes is the status code of the response.\<close>

fun headersLoop :: "HeaderYaml list \<Rightarrow> ref \<Rightarrow> world \<Rightarrow> world option" where
  "headersLoop [] res w = None"
| "headersLoop (headerPred # headers) res w =
     (if StatusCode (heap w res) \<in> set (StatusCodes headerPred)
      then Some (valuesLoop res headerPred w)
      else headersLoop headers res w)"

definition updateHeaders :: "env \<Rightarrow> FileObject \<Rightarrow> ref \<Rightarrow> world \<Rightarrow> ref \<times> world" where
  "updateHeaders E obj res w =
     (let w1 = (case map_of (Buckets (mortConfig E)) (Bucket obj) of
                  Some bucket \<Rightarrow> bucketHeadersLoop res (BucketHeaders bucket) w
                | None \<Rightarrow> w)
      in case headersLoop (CfgHeaders (mortConfig E)) res w1 of
           Some w2 \<Rightarrow> (res, w2)
         | None \<Rightarrow>
             if CtxS3Auth obj then (res, Set res ''Cache-Control'' ''no-cache'' w1)
             else (res, w1))"

subsection \<open>Error responses: replyWithError\<close>

definition errTimeout :: string where "errTimeout = ''timeout''"
definition errContextCancel :: string where "errContextCancel = ''context timeout''"
definition errThrottled :: string where "errThrottled = ''throttled''"

text \<open>The goroutine that transforms the placeholder and stores the result in the cache runs
  after replyWithError has returned; the trace records that it was started.\<close>

definition replyWithError ::
  "env \<Rightarrow> RequestProcessor \<Rightarrow> FileObject \<Rightarrow> int \<Rightarrow> string \<Rightarrow> world \<Rightarrow> ref \<times> world" where
  "replyWithError E r obj sc err w =
     (if \<not> HasTransform obj \<or> Debug obj \<or> PlaceholderStr (serverConfig r) = [] then
        NewError sc err w
      else
        case NewFileErrorObject E (PlaceholderStr (serverConfig r)) obj of
          None \<Rightarrow> NewError sc err w
        | Some errorObject \<Rightarrow>
            (case responseCacheGet E errorObject w of
               (Some cacheRes, w1) \<Rightarrow> (cacheRes, modify cacheRes (\<lambda>v. v\<lparr>StatusCode := sc\<rparr>) w1)
             | (None, w1) \<Rightarrow>
                 (case NewBuf sc (Buf (ServerPlaceholder (serverConfig r)))
                         (emit (GoPlaceholder errorObject sc) w1) of
                    (res, w2) \<Rightarrow>
                      (res, SetContentType res (ContentType (ServerPlaceholder (serverConfig r))) w2))))"

subsection \<open>Transform execution: processImage and storeProcessedImage\<close>

text \<open>The goroutine of storeProcessedImage writes the copy to storage after the function has
  returned; the trace records that it was started, with the copy it was given.\<close>

definition storeProcessedImage :: "env \<Rightarrow> ref \<Rightarrow> FileObject \<Rightarrow> world \<Rightarrow> bool \<times> world" where
  "storeProcessedImage E res obj w =
     (case Copy E res w of
        (None, w1) \<Rightarrow> (False, w1)
      | (Some resCpy, w1) \<Rightarrow> (True, emit (GoStorageSet obj resCpy) w1))"

definition processImage ::
  "env \<Rightarrow> RequestProcessor \<Rightarrow> FileObject \<Rightarrow> ref \<Rightarrow> Transforms list \<Rightarrow> world \<Rightarrow> ref \<times> world" where
  "processImage E r obj parent transformsTab w =
     (let w1 = emit ThrottlerTake w in
      if \<not> throttler_Take E then replyWithError E r obj 503 errThrottled w1
      else
        (let mergedTrans = transforms_Merge E transformsTab;
             w2 = emit (EngineProcess parent) w1
         in case engine_Process E (heap w2 parent) obj mergedTrans of
              Inl err \<Rightarrow>
                (case NewError 400 err w2 of
                   (errRes, w3) \<Rightarrow> (errRes, emit ThrottlerRelease (SetTransforms errRes mergedTrans w3)))
            | Inr v \<Rightarrow>
                (case alloc v w2 of
                   (res, w3) \<Rightarrow>
                     (case storeProcessedImage E res obj (SetTransforms res mergedTrans w3) of
                        (_, w4) \<Rightarrow> (res, emit ThrottlerRelease w4)))))"

subsection \<open>Not-found recovery: handleNotFound\<close>

definition handleNotFound ::
  "env \<Rightarrow> RequestProcessor \<Rightarrow> FileObject \<Rightarrow> FileObject option \<Rightarrow> Transforms list \<Rightarrow>
   ref option \<Rightarrow> ref \<Rightarrow> world \<Rightarrow> (ref \<times> world) option" where
  "handleNotFound E r obj parentObj transformsTab parentRes res w =
     (let w1 = Close res w in
      case parentObj of
        None \<Rightarrow> Some (res, w1)
      | Some p \<Rightarrow>
          (case (if \<not> CheckParent obj
                 then (case storageHead E p w1 of (h, w') \<Rightarrow> (Some h, w'))
                 else (parentRes, w1)) of
             (None, w2) \<Rightarrow> None
           | (Some parentRes, w2) \<Rightarrow>
               if HasError (heap w2 parentRes) then
                 Some (replyWithError E r obj (StatusCode (heap w2 parentRes))
                         (Error (heap w2 parentRes)) w2)
               else if StatusCode (heap w2 parentRes) = 404 then Some (parentRes, w2)
               else
                 (let w3 = Close parentRes w2 in
                  if StatusCode (heap w3 parentRes) \<noteq> 200 \<or> \<not> IsImage E (heap w3 parentRes)
                  then Some (res, w3)
                  else
                    (case storageGet E p w3 of
                       (parentRes2, w4) \<Rightarrow>
                         if HasTransform obj then
                           (case processImage E r obj parentRes2 transformsTab w4 of
                              (out, w5) \<Rightarrow> Some (out, Close parentRes2 w5))
                         else Some (parentRes2, w4)))))"

subsection \<open>Direct GET: handleGET\<close>

text \<open>The search for the root parent: the transforms met on the way, and the ancestor
  without a parent (\<open>None\<close> when the object has no parent at all).\<close>

fun searchRoot :: "FileObject \<Rightarrow> Transforms list \<Rightarrow> FileObject option \<times> Transforms list" where
  "searchRoot (FileObject b k t p cp d a) transformsTab =
     (case p of
        None \<Rightarrow> (None, transformsTab)
      | Some currObj \<Rightarrow>
          (let transformsTab' = (if NotEmpty t = True then transformsTab @ [t] else transformsTab)
           in case Parent currObj of
                None \<Rightarrow> (Some currObj, transformsTab')
              | Some _ \<Rightarrow> searchRoot currObj transformsTab'))"

text \<open>What the \<^verbatim>\<open>select\<close> of the loop takes: the Done channel of the context, resChan or
  parentChan. The schedule lists what the successive iterations take. An exhausted schedule
  is the deadline of the context (Process derives it with context.WithTimeout, so Done is
  ready in the end); an entry for a channel that holds nothing is passed over. The probe of
  Done after handleNotFound looks at the next entry of the schedule.

  The response of storage.Get stays available on resChan until the loop returns it (the
  loop puts it back when it does not); the response of storage.Head is received once.
  Both goroutines call storage when handleGET starts. What they do with a response that
  the loop never receives, because the context is done first, is left out.\<close>

datatype select = CtxDone | FromResChan | FromParentChan

fun handleGET_loop ::
  "env \<Rightarrow> RequestProcessor \<Rightarrow> FileObject \<Rightarrow> FileObject option \<Rightarrow> Transforms list \<Rightarrow>
   ref \<Rightarrow> ref option \<Rightarrow> ref option \<Rightarrow> select list \<Rightarrow> world \<Rightarrow> (ref \<times> world) option" where
  "handleGET_loop E r obj parentObj transformsTab res parentChan parentRes [] w =
     Some (replyWithError E r obj 499 errContextCancel (emit CtxDoneTaken w))"
| "handleGET_loop E r obj parentObj transformsTab res parentChan parentRes (CtxDone # ss) w =
     Some (replyWithError E r obj 499 errContextCancel (emit CtxDoneTaken w))"
| "handleGET_loop E r obj parentObj transformsTab res parentChan parentRes (FromResChan # ss) w =
     (if CheckParent obj \<and> parentObj \<noteq> None \<and>
         (case parentRes of None \<Rightarrow> True | Some p \<Rightarrow> StatusCode (heap w p) = 0)
      then handleGET_loop E r obj parentObj transformsTab res parentChan parentRes ss w
      else if StatusCode (heap w res) = 404 then
        (case handleNotFound E r obj parentObj transformsTab parentRes res w of
           None \<Rightarrow> None
         | Some (res', w1) \<Rightarrow>
             (case ss of
                CtxDone # _ \<Rightarrow> Some (res', Close res' (emit CtxDoneTaken w1))
              | _ \<Rightarrow> Some (res', w1)))
      else Some (res, w))"
| "handleGET_loop E r obj parentObj transformsTab res parentChan parentRes (FromParentChan # ss) w =
     (case parentChan of
        None \<Rightarrow> handleGET_loop E r obj parentObj transformsTab res parentChan parentRes ss w
      | Some p \<Rightarrow>
          if StatusCode (heap w p) = 404 then Some (p, w)
          else handleGET_loop E r obj parentObj transformsTab res None (Some p) ss w)"

definition handleGET ::
  "env \<Rightarrow> RequestProcessor \<Rightarrow> Request \<Rightarrow> FileObject \<Rightarrow> select list \<Rightarrow> world \<Rightarrow>
   (ref \<times> world) option" where
  "handleGET E r req obj ss w =
     (case searchRoot obj [] of
        (parentObj, transformsTab) \<Rightarrow>
          (case storageGet E obj w of
             (res, w1) \<Rightarrow>
               (case parentObj of
                  Some p \<Rightarrow>
                    if CheckParent obj then
                      (case storageHead E p w1 of
                         (h, w2) \<Rightarrow>
                           handleGET_loop E r obj parentObj transformsTab res (Some h) None ss w2)
                    else handleGET_loop E r obj parentObj transformsTab res None None ss w1
                | None \<Rightarrow> handleGET_loop E r obj parentObj transformsTab res None None ss w1)))"

subsection \<open>Collapsed GET: collapseGET\<close>

text \<open>What the \<^verbatim>\<open>select\<close> of a waiter takes: the Done channel of the context, a response
  on ResponseChan, the closing of ResponseChan, or the timer.\<close>

datatype lock_select = LockCtxDone | LockResponse Response | LockClosed | LockTimer

definition collapseGET ::
  "env \<Rightarrow> RequestProcessor \<Rightarrow> Request \<Rightarrow> FileObject \<Rightarrow> lock_select \<Rightarrow> select list \<Rightarrow> world \<Rightarrow>
   (ref \<times> world) option" where
  "collapseGET E r req obj ls ss w =
     (let w1 = emit (LockCall (Key obj)) w in
      if lock_Lock E (Key obj) then
        (case handleGET E r req obj ss w1 of
           None \<Rightarrow> None
         | Some (res, w2) \<Rightarrow> Some (res, emit (NotifyAndRelease (Key obj) res) w2))
      else
        (let w2 = emit (NewTimer (lockTimeout r)) w1 in
         case ls of
           LockCtxDone \<Rightarrow>
             Some (replyWithError E r obj 504 errContextCancel
                     (emit CancelSent (emit CtxDoneTaken w2)))
         | LockResponse v \<Rightarrow> Some (alloc v w2)
         | LockClosed \<Rightarrow> handleGET E r req obj ss w2
         | LockTimer \<Rightarrow>
             (case responseCacheGet E obj (emit CancelSent w2) of
                (Some cacheRes, w3) \<Rightarrow> Some (cacheRes, w3)
              | (None, w3) \<Rightarrow> Some (replyWithError E r obj 504 errTimeout w3))))"

subsection \<open>Dispatch by method: process\<close>

record schedule =
  lockSel :: lock_select
  getSel :: "select list"
  processCtxDone :: bool

text \<open>The last step of the GET pipeline (processor.go, the block before \<^verbatim>\<open>return res\<close>):
  the goroutine that fills the cache runs after process has returned; the trace records that
  it was started, with the copies of the object and of the response it was given.\<close>

definition cacheResponse ::
  "env \<Rightarrow> RequestProcessor \<Rightarrow> FileObject \<Rightarrow> ref \<Rightarrow> world \<Rightarrow> ref \<times> world" where
  "cacheResponse E r obj res w =
     (if IsCacheable E (heap w res) \<and> ContentLength (heap w res) \<noteq> -1 \<and>
         ContentLength (heap w res) < MaxCacheItemSize (serverConfig r)
      then
        (case Copy E res w of
           (Some resCpy, w1) \<Rightarrow> (res, emit (GoCacheSet obj resCpy) w1)
         | (None, w1) \<Rightarrow> (res, w1))
      else (res, w))"

definition handlePUT :: "env \<Rightarrow> Request \<Rightarrow> FileObject \<Rightarrow> world \<Rightarrow> ref \<times> world" where
  "handlePUT E req obj w = storageSet E obj req w"

definition process ::
  "env \<Rightarrow> RequestProcessor \<Rightarrow> Request \<Rightarrow> FileObject \<Rightarrow> schedule \<Rightarrow> world \<Rightarrow>
   (ref \<times> world) option" where
  "process E r req obj sch w =
     (if Method req = ''GET'' \<or> Method req = ''HEAD'' then
        (if Key obj = [] then handleS3Get E req obj w
         else
           (case responseCacheGet E obj w of
              (Some res, w1) \<Rightarrow> Some (res, w1)
            | (None, w1) \<Rightarrow>
                (case (if HasTransform obj
                       then collapseGET E r req obj (lockSel sch) (getSel sch) w1
                       else handleGET E r req obj (getSel sch) w1) of
                   None \<Rightarrow> None
                 | Some (res0, w2) \<Rightarrow>
                     (case updateHeaders E obj res0 w2 of
                        (res, w3) \<Rightarrow> Some (cacheResponse E r obj res w3)))))
      else if Method req = ''PUT'' then
        Some (handlePUT E req obj (emit (GoCacheDelete obj) w))
      else if Method req = ''DELETE'' then
        Some (storageDelete E obj (emit (GoCacheDelete obj) w))
      else Some (NewError 405 ''method not allowed'' w))"

subsection \<open>Process\<close>

text \<open>Process starts processChan, which runs process, and waits for the Done channel of the
  context or for the response. \<open>processCtxDone\<close> says that Done is taken: processChan then
  closes the response it has produced and Process answers with the error 499; process is
  run to its end in both cases. The plug-in hooks are external; PostProcess is given the
  response and Process returns that same pointer.\<close>

definition Process ::
  "env \<Rightarrow> RequestProcessor \<Rightarrow> Request \<Rightarrow> FileObject \<Rightarrow> schedule \<Rightarrow> world \<Rightarrow>
   (ref \<times> world) option" where
  "Process E r req obj0 sch w =
     (let obj = PreProcess E (FillWithRequest E req obj0) req;
          w0 = emit PreProcessHook w
      in case process E r req obj sch w0 of
           None \<Rightarrow> None
         | Some (res, w1) \<Rightarrow>
             if processCtxDone sch then
               Some (replyWithError E r obj 499 errContextCancel
                       (Close res (emit CloseCancel (emit CtxDoneTaken w1))))
             else Some (res, emit (PostProcessHook res) w1))"

subsection \<open>Observing a result\<close>

definition statusOf :: "(ref \<times> world) option \<Rightarrow> int option" where
  "statusOf x = map_option (\<lambda>(res, w). StatusCode (heap w res)) x"

definition bodyOf :: "(ref \<times> world) option \<Rightarrow> string option" where
  "bodyOf x = map_option (\<lambda>(res, w). Body (heap w res)) x"

definition traceOf :: "(ref \<times> world) option \<Rightarrow> effect list option" where
  "traceOf x = map_option (\<lambda>(res, w). trace w) x"

definition headerOf :: "string \<Rightarrow> (ref \<times> world) option \<Rightarrow> string option" where
  "headerOf h x = map_option (\<lambda>(res, w). HeadersGet (heap w res) h) x"

definition errorOf :: "(ref \<times> world) option \<Rightarrow> string option option" where
  "errorOf x = map_option (\<lambda>(res, w). ErrorValue (heap w res)) x"

definition closedAt :: "ref \<Rightarrow> (ref \<times> world) option \<Rightarrow> bool option" where
  "closedAt x y = map_option (\<lambda>(res, w). Closed (heap w x)) y"

definition tracedIn :: "effect \<Rightarrow> (ref \<times> world) option \<Rightarrow> bool" where
  "tracedIn e y = (case y of None \<Rightarrow> False | Some (res, w) \<Rightarrow> e \<in> set (trace w))"

definition contentLengthOf :: "(ref \<times> world) option \<Rightarrow> int option" where
  "contentLengthOf x = map_option (\<lambda>(res, w). ContentLength (heap w res)) x"

text \<open>The two parts of s3LocationStr: the XML declaration, and the LocationConstraint
  element.\<close>

definition xmlDeclaration :: string where
  \<open>xmlDeclaration = ''<?xml version="1.0" encoding="UTF-8"?>''\<close>

definition locationConstraintElement :: string where
  \<open>locationConstraintElement = ''<LocationConstraint xmlns="http://s3.amazonaws.com/doc/2006-03-01/">EU</LocationConstraint>''\<close>

text \<open>A decimal integer as a text: an optional sign, then digits, at least one.\<close>

definition isInteger :: "string \<Rightarrow> bool" where
  "isInteger s =
     (case s of
        [] \<Rightarrow> False
      | c # cs \<Rightarrow>
          (let ds = (if c = CHR ''-'' \<or> c = CHR ''+'' then cs else s)
           in ds \<noteq> [] \<and> list_all isDigit ds))"

subsection \<open>Frame conditions\<close>

text \<open>\<open>extends w w' new\<close>: the world \<open>w'\<close> comes after \<open>w\<close>. Its trace is the trace of \<open>w\<close>
  followed by \<open>new\<close>, the responses of \<open>w\<close> are still there with their status codes, and
  those that were closed are closed.\<close>

definition extends :: "world \<Rightarrow> world \<Rightarrow> effect list \<Rightarrow> bool" where
  "extends w w' new =
     (trace w' = trace w @ new \<and> nextRef w \<le> nextRef w' \<and>
      (\<forall>x. x < nextRef w \<longrightarrow>
         StatusCode (heap w' x) = StatusCode (heap w x) \<and>
         (Closed (heap w x) \<longrightarrow> Closed (heap w' x))))"

fun isStorageHead :: "effect \<Rightarrow> bool" where
  "isStorageHead (StorageHead _) = True"
| "isStorageHead _ = False"

fun isGoCacheSet :: "effect \<Rightarrow> bool" where
  "isGoCacheSet (GoCacheSet _ _) = True"
| "isGoCacheSet _ = False"

text \<open>Effects among which there is no call of storage.Head and no start of a cache write;
  effects among which every call of storage.Head is for the given object.\<close>

definition calm :: "effect list \<Rightarrow> bool" where
  "calm new = (\<forall>e \<in> set new. \<not> isStorageHead e \<and> \<not> isGoCacheSet e)"

definition quietBut :: "FileObject option \<Rightarrow> effect list \<Rightarrow> bool" where
  "quietBut po new =
     (\<forall>e \<in> set new. \<not> isGoCacheSet e \<and> (\<forall>q. e = StorageHead q \<longrightarrow> po = Some q))"

text \<open>\<open>answers404 E new out w'\<close>: if among the effects \<open>new\<close> there is a call of storage.Head
  that storage answers with 404, the response \<open>out\<close> has status 404, or it has status 499
  and the Done channel of the context was taken.\<close>

definition answers404 :: "env \<Rightarrow> effect list \<Rightarrow> ref \<Rightarrow> world \<Rightarrow> bool" where
  "answers404 E new out w' =
     (\<forall>q. StorageHead q \<in> set new \<and> StatusCode (storage_Head E q) = 404 \<longrightarrow>
        StatusCode (heap w' out) = 404 \<or>
        (StatusCode (heap w' out) = 499 \<and> CtxDoneTaken \<in> set new))"

subsection \<open>Example inputs\<close>

definition world0 :: world where
  "world0 = \<lparr> heap = (\<lambda>_. emptyResponse), nextRef = 0, trace = [], lookups = 0 \<rparr>"

definition resp :: "int \<Rightarrow> Response" where
  "resp sc = emptyResponse\<lparr>StatusCode := sc\<rparr>"

definition parent0 :: FileObject where
  "parent0 = FileObject ''media'' ''/image.jpg'' \<lparr>NotEmpty = False, Ops = []\<rparr> None False False False"

definition child0 :: FileObject where
  "child0 = FileObject ''media'' ''/image.jpg-small'' \<lparr>NotEmpty = True, Ops = [''resize'']\<rparr>
     (Some parent0) True False False"

definition listing0 :: FileObject where
  "listing0 = FileObject ''media'' [] \<lparr>NotEmpty = False, Ops = []\<rparr> None False False False"

definition server0 :: Server where
  "server0 = \<lparr> RequestTimeout = 60, LockTimeout = 30, PlaceholderStr = ''/placeholder.png'',
     ServerPlaceholder = \<lparr>Buf = ''PNG'', ContentType = ''image/png''\<rparr>,
     MaxCacheItemSize = 1000 \<rparr>"

definition env0 :: env where
  "env0 = \<lparr> storage_Get = (\<lambda>_. resp 200),
     storage_Head = (\<lambda>_. resp 200),
     storage_List = (\<lambda>_ _ _ _ _. resp 200),
     storage_Set = (\<lambda>_ _. resp 200),
     storage_Delete = (\<lambda>_. resp 200),
     cache_Get = (\<lambda>_ _. None),
     IsCacheable = (\<lambda>v. StatusCode v = 200),
     IsImage = (\<lambda>_. True),
     CopyFails = (\<lambda>_. False),
     NewFileErrorObject = (\<lambda>p obj. Some (FileObject (Bucket obj) (''error'' @ p) (Transforms obj)
        None False False False)),
     lock_Lock = (\<lambda>_. True),
     throttler_Take = True,
     transforms_Merge = (\<lambda>ts. ts),
     engine_Process = (\<lambda>_ _ _. Inr (resp 200)),
     mortConfig = \<lparr>CfgHeaders = [], Buckets = []\<rparr>,
     FillWithRequest = (\<lambda>_ obj. obj),
     PreProcess = (\<lambda>obj _. obj) \<rparr>"

definition get0 :: Request where
  "get0 = \<lparr> Method = ''GET'', Query = [], ReqHeader = [], ReqContentLength = 0, ReqBody = [] \<rparr>"

definition sched0 :: schedule where
  "sched0 = \<lparr> lockSel = LockTimer, getSel = [FromResChan, FromParentChan, FromResChan],
     processCtxDone = False \<rparr>"

definition rp0 :: RequestProcessor where
  "rp0 = NewRequestProcessor server0"

definition envWaiter :: env where
  "envWaiter = env0\<lparr>lock_Lock := (\<lambda>_. False)\<rparr>"

definition reqLocation :: Request where
  "reqLocation = get0\<lparr>Query := [(''location'', [[]])]\<rparr>"

definition reqMaxKeysAbc :: Request where
  "reqMaxKeysAbc = get0\<lparr>Query := [(''max-keys'', [''abc''])]\<rparr>"

definition reqMaxKeysLong :: Request where
  "reqMaxKeysLong = get0\<lparr>Query := [(''max-keys'', [''99999999999999999999x''])]\<rparr>"

definition envWaiterHit :: env where
  "envWaiterHit = envWaiter\<lparr>cache_Get :=
     (\<lambda>n _. if n = 0 then Some ((resp 200)\<lparr>Body := ''cached''\<rparr>) else None)\<rparr>"

definition envNoErrorObject :: env where
  "envNoErrorObject = env0\<lparr>NewFileErrorObject := (\<lambda>_ _. None)\<rparr>"

definition envPolicy :: env where
  "envPolicy = env0\<lparr>mortConfig := \<lparr>CfgHeaders =
      [\<lparr>StatusCodes = [200], Values = [(''X-Served-By'', ''mort'')], Override = False\<rparr>],
      Buckets = []\<rparr>\<rparr>"

definition objAuth :: FileObject where
  "objAuth = FileObject ''media'' ''/private.jpg'' \<lparr>NotEmpty = False, Ops = []\<rparr>
     None False False True"

definition world1 :: world where
  "world1 = snd (alloc (resp 404) world0)"

definition envNotImage :: env where
  "envNotImage = env0\<lparr>IsImage := (\<lambda>_. False)\<rparr>"

definition childNoCheck :: FileObject where
  "childNoCheck = FileObject ''media'' ''/image.jpg-small'' \<lparr>NotEmpty = True, Ops = [''resize'']\<rparr>
     (Some parent0) False False False"

definition envHead404 :: env where
  "envHead404 = env0\<lparr>storage_Head := (\<lambda>_. resp 404)\<rparr>"

definition schedProcessDone :: schedule where
  "schedProcessDone = sched0\<lparr>processCtxDone := True\<rparr>"

definition schedSelectDone :: schedule where
  "schedSelectDone = sched0\<lparr>getSel := [FromResChan, CtxDone]\<rparr>"

definition envNegativeLength :: env where
  "envNegativeLength = env0\<lparr>storage_Get := (\<lambda>_. (resp 200)\<lparr>ContentLength := - 2\<rparr>)\<rparr>"

definition envLength10 :: env where
  "envLength10 = env0\<lparr>storage_Get := (\<lambda>_. (resp 200)\<lparr>ContentLength := 10\<rparr>)\<rparr>"

definition envCopyFails :: env where
  "envCopyFails = envLength10\<lparr>CopyFails := (\<lambda>_. True)\<rparr>"

subsection \<open>Reading the query\<close>

text \<open>URL.Query() never maps a key to an empty list of values.\<close>

definition wellFormedQuery :: "(string \<times> string list) list \<Rightarrow> bool" where
  "wellFormedQuery q = list_all (\<lambda>(k, vs). vs \<noteq> []) q"

text \<open>The first value of a key of the query, the empty string when the key is absent.\<close>

definition queryOr :: "(string \<times> string list) list \<Rightarrow> string \<Rightarrow> string" where
  "queryOr q k = (case map_of q k of Some (v # _) \<Rightarrow> v | _ \<Rightarrow> [])"

section \<open>Properties\<close>

lemmas ex_defs = env0_def world0_def resp_def parent0_def child0_def listing0_def server0_def
  get0_def sched0_def rp0_def envWaiter_def reqLocation_def reqMaxKeysAbc_def reqMaxKeysLong_def
  envWaiterHit_def envNoErrorObject_def envPolicy_def objAuth_def world1_def envNotImage_def
  childNoCheck_def envHead404_def schedProcessDone_def schedSelectDone_def
  envNegativeLength_def envLength10_def envCopyFails_def

lemmas resp_defs = alloc_def emit_def modify_def emptyResponse_def NewError_def NewString_def
  NewBuf_def Close_def HasError_def Error_def HeadersGet_def Set_def SetContentType_def
  SetTransforms_def Copy_def storageGet_def storageHead_def storageList_def storageSet_def
  storageDelete_def responseCacheGet_def

lemmas proc_defs = Process_def process_def cacheResponse_def collapseGET_def handleGET_def
  handleNotFound_def processImage_def storeProcessedImage_def replyWithError_def
  updateHeaders_def handleS3Get_def bucketHeadersLoop_def valuesLoop_def HasTransform_def
  HasParent_def handlePUT_def

lemmas obs_defs = statusOf_def bodyOf_def traceOf_def headerOf_def errorOf_def
  contentLengthOf_def closedAt_def tracedIn_def

subsection \<open>Frame lemmas\<close>

lemma extends_refl: "extends w w []"
  by (simp add: extends_def)

lemma extends_trans:
  "extends w w1 n1 \<Longrightarrow> extends w1 w2 n2 \<Longrightarrow> extends w w2 (n1 @ n2)"
  by (auto simp add: extends_def)

lemma extends_alloc:
  "alloc v w = (x, w') \<Longrightarrow> extends w w' [] \<and> x = nextRef w \<and> nextRef w' = Suc x \<and> heap w' x = v"
  by (auto simp: alloc_def extends_def)

lemma extends_emit: "extends w (emit e w) [e]"
  by (simp add: emit_def extends_def)

lemma extends_Close: "extends w (Close x w) []"
  by (simp add: Close_def modify_def extends_def)

lemma Close_closed: "Closed (heap (Close x w) x)"
  by (simp add: Close_def modify_def)

lemma Close_nextRef: "nextRef (Close x w) = nextRef w"
  by (simp add: Close_def modify_def)

lemma Close_StatusCode: "StatusCode (heap (Close x w) y) = StatusCode (heap w y)"
  by (simp add: Close_def modify_def)

lemma extends_storageHead:
  "storageHead E p w = (h, w') \<Longrightarrow>
     extends w w' [StorageHead p] \<and> h = nextRef w \<and> nextRef w' = Suc h \<and> heap w' h = storage_Head E p"
  by (auto simp: storageHead_def alloc_def emit_def extends_def)

lemma extends_storageGet:
  "storageGet E p w = (h, w') \<Longrightarrow>
     extends w w' [StorageGet p] \<and> h = nextRef w \<and> nextRef w' = Suc h \<and> heap w' h = storage_Get E p"
  by (auto simp: storageGet_def alloc_def emit_def extends_def)

lemma calm_simps [simp]:
  "calm []" "calm (xs @ ys) = (calm xs \<and> calm ys)"
  "calm (e # xs) = (\<not> isStorageHead e \<and> \<not> isGoCacheSet e \<and> calm xs)"
  by (auto simp: calm_def)

lemma replyWithError_result:
  assumes "replyWithError E r obj sc err w = (out, w')"
  shows "StatusCode (heap w' out) = sc \<and> out < nextRef w' \<and>
         (\<exists>new. extends w w' new \<and> calm new)"
  using assms
  by (auto simp: replyWithError_def NewError_def NewBuf_def SetContentType_def Set_def alloc_def
      modify_def emit_def responseCacheGet_def extends_def Let_def
      split: if_splits option.splits prod.splits)

lemma processImage_result:
  assumes "processImage E r obj parent tab w = (out, w')"
  shows "out < nextRef w' \<and> (\<exists>new. extends w w' new \<and> calm new)"
proof (cases "throttler_Take E")
  case False
  then have "replyWithError E r obj 503 errThrottled (emit ThrottlerTake w) = (out, w')"
    using assms by (simp add: processImage_def Let_def)
  from replyWithError_result [OF this] obtain new where
    "out < nextRef w'" "extends (emit ThrottlerTake w) w' new" "calm new" by blast
  with extends_trans [OF extends_emit [of w ThrottlerTake]] show ?thesis
    by (intro conjI exI [of _ "[ThrottlerTake] @ new"]) auto
next
  case True
  then show ?thesis
    using assms
    by (auto simp: processImage_def storeProcessedImage_def Copy_def NewError_def
        SetTransforms_def alloc_def modify_def emit_def extends_def Let_def calm_def
        split: sum.splits prod.splits if_splits option.splits)
qed


lemma calm_quietBut: "calm new \<Longrightarrow> quietBut po new"
  by (auto simp: calm_def quietBut_def)

lemma calm_no_head: "calm new \<Longrightarrow> StorageHead q \<notin> set new"
  by (auto simp: calm_def)

lemma quietBut_simps [simp]:
  "quietBut po []" "quietBut po (xs @ ys) = (quietBut po xs \<and> quietBut po ys)"
  "quietBut po (e # xs) = (\<not> isGoCacheSet e \<and>
      (\<forall>q. e = StorageHead q \<longrightarrow> po = Some q) \<and> quietBut po xs)"
  by (auto simp: quietBut_def)

lemma handleNotFound_result:
  assumes hnf: "handleNotFound E r obj parentObj tab parentRes res w = Some (out, w')"
    and res: "res < nextRef w"
  shows "((\<forall>pr. parentRes = Some pr \<longrightarrow> pr < nextRef w) \<longrightarrow> out < nextRef w') \<and>
     Closed (heap w' res) \<and>
     (\<exists>new. extends w w' new \<and> quietBut parentObj new \<and>
        (\<forall>q. StorageHead q \<in> set new \<longrightarrow>
           \<not> CheckParent obj \<and>
           (StatusCode (storage_Head E q) = 404 \<longrightarrow> StatusCode (heap w' out) = 404)))"
proof (cases parentObj)
  case None
  then have "out = res" "w' = Close res w"
    using hnf by (auto simp: handleNotFound_def Let_def)
  then show ?thesis
    using res extends_Close [of w res]
    by (auto simp: Close_closed Close_nextRef intro!: exI [of _ "[]"])
next
  case (Some p)
  define w1 where "w1 = Close res w"
  have e1: "extends w w1 []" and c1: "Closed (heap w1 res)" and n1: "nextRef w1 = nextRef w"
    by (simp_all add: w1_def extends_Close Close_closed Close_nextRef)
  obtain h w2 n2 where
    step: "(if \<not> CheckParent obj
            then (case storageHead E p w1 of (h, w') \<Rightarrow> (Some h, w'))
            else (parentRes, w1)) = (Some h, w2)"
    and e2: "extends w1 w2 n2"
    and h: "(\<forall>pr. parentRes = Some pr \<longrightarrow> pr < nextRef w) \<Longrightarrow> h < nextRef w2"
    and n2: "n2 = (if CheckParent obj then [] else [StorageHead p])"
    and hv: "\<not> CheckParent obj \<Longrightarrow> heap w2 h = storage_Head E p"
  proof (cases "CheckParent obj")
    case True
    then obtain h where "parentRes = Some h"
      using hnf Some by (auto simp: handleNotFound_def Let_def w1_def split: option.splits)
    with True n1 show ?thesis
      by (intro that [of h w1 "[]"]) (auto simp: extends_refl)
  next
    case False
    obtain h w2 where sh: "storageHead E p w1 = (h, w2)" by (cases "storageHead E p w1")
    from extends_storageHead [OF sh] False show ?thesis
      by (intro that [of h w2 "[StorageHead p]"]) (auto simp: sh)
  qed
  have e12: "extends w w2 n2" using extends_trans [OF e1 e2] by simp
  have res2: "res < nextRef w2" "Closed (heap w2 res)"
    using e2 c1 res n1 by (auto simp: extends_def)
  have body: "(if HasError (heap w2 h) then
                 Some (replyWithError E r obj (StatusCode (heap w2 h)) (Error (heap w2 h)) w2)
               else if StatusCode (heap w2 h) = 404 then Some (h, w2)
               else
                 (let w3 = Close h w2 in
                  if StatusCode (heap w3 h) \<noteq> 200 \<or> \<not> IsImage E (heap w3 h)
                  then Some (res, w3)
                  else
                    (case storageGet E p w3 of
                       (parentRes2, w4) \<Rightarrow>
                         if HasTransform obj then
                           (case processImage E r obj parentRes2 tab w4 of
                              (out, w5) \<Rightarrow> Some (out, Close parentRes2 w5))
                         else Some (parentRes2, w4)))) = Some (out, w')"
    using hnf unfolding handleNotFound_def Let_def Some w1_def [symmetric] by (simp add: step)
  have qn2: "quietBut parentObj n2" using n2 Some by auto
  have goal: "\<exists>n3. extends w2 w' n3 \<and> calm n3 \<and>
      ((\<forall>pr. parentRes = Some pr \<longrightarrow> pr < nextRef w) \<longrightarrow> out < nextRef w') \<and>
      (\<not> CheckParent obj \<and> StatusCode (storage_Head E p) = 404 \<longrightarrow> StatusCode (heap w' out) = 404)"
  proof (cases "HasError (heap w2 h)")
    case True
    with body have "replyWithError E r obj (StatusCode (heap w2 h)) (Error (heap w2 h)) w2 = (out, w')"
      by simp
    from replyWithError_result [OF this] hv show ?thesis by auto
  next
    case noerr: False
    show ?thesis
    proof (cases "StatusCode (heap w2 h) = 404")
      case True
      with body noerr have "out = h" "w' = w2" by auto
      with h True show ?thesis by (auto intro!: exI [of _ "[]"] simp: extends_refl)
    next
      case no404: False
      define w3 where "w3 = Close h w2"
      have e3: "extends w2 w3 []" and n3: "nextRef w3 = nextRef w2"
        by (simp_all add: w3_def extends_Close Close_nextRef)
      have vac: "\<not> (\<not> CheckParent obj \<and> StatusCode (storage_Head E p) = 404)"
        using no404 hv by auto
      show ?thesis
      proof (cases "StatusCode (heap w3 h) \<noteq> 200 \<or> \<not> IsImage E (heap w3 h)")
        case True
        with body noerr no404 have "out = res" "w' = w3"
          by (auto simp: Let_def w3_def)
        with e3 res2 n3 vac show ?thesis by (auto intro!: exI [of _ "[]"])
      next
        case img: False
        obtain p2 w4 where sg: "storageGet E p w3 = (p2, w4)" by (cases "storageGet E p w3")
        note g = extends_storageGet [OF sg]
        have e4: "extends w2 w4 [StorageGet p]"
          using extends_trans [OF e3] g by auto
        show ?thesis
        proof (cases "HasTransform obj")
          case False
          with body noerr no404 img sg have "out = p2" "w' = w4"
            by (auto simp: Let_def w3_def)
          with e4 g vac show ?thesis by (auto intro!: exI [of _ "[StorageGet p]"])
        next
          case True
          obtain o5 w5 where pi: "processImage E r obj p2 tab w4 = (o5, w5)"
            by (cases "processImage E r obj p2 tab w4")
          with body noerr no404 img sg True have ow: "out = o5" "w' = Close p2 w5"
            by (auto simp: Let_def w3_def)
          from processImage_result [OF pi] obtain n5 where
            o5: "o5 < nextRef w5" and e5: "extends w4 w5 n5" and c5: "calm n5" by blast
          have "extends w2 w' ([StorageGet p] @ n5 @ [])"
            unfolding ow using e4 e5 extends_Close [of w5 p2] by (blast intro: extends_trans)
          with ow o5 c5 vac show ?thesis
            by (auto intro!: exI [of _ "[StorageGet p] @ n5"] simp: Close_nextRef)
        qed
      qed
    qed
  qed
  then obtain n3 where e3: "extends w2 w' n3" and c3: "calm n3"
    and o: "(\<forall>pr. parentRes = Some pr \<longrightarrow> pr < nextRef w) \<longrightarrow> out < nextRef w'"
    and st: "\<not> CheckParent obj \<and> StatusCode (storage_Head E p) = 404 \<Longrightarrow> StatusCode (heap w' out) = 404"
    by blast
  have ew: "extends w w' (n2 @ n3)" using extends_trans [OF e12 e3] .
  have cl: "Closed (heap w' res)" using e3 res2 by (auto simp: extends_def)
  have q: "quietBut parentObj (n2 @ n3)" using qn2 c3 by (simp add: calm_quietBut)
  have hd: "\<forall>q. StorageHead q \<in> set (n2 @ n3) \<longrightarrow>
           \<not> CheckParent obj \<and>
           (StatusCode (storage_Head E q) = 404 \<longrightarrow> StatusCode (heap w' out) = 404)"
    using n2 c3 st by (auto simp: calm_no_head split: if_splits)
  show ?thesis using o cl ew q hd by blast
qed


subsection \<open>The lock timeout\<close>

lemma lockTimeout_NewRequestProcessor:
  "lockTimeout (NewRequestProcessor cfg) = word_of_int (LockTimeout cfg) * Second"
  by (simp add: NewRequestProcessor_def)

text \<open>
  C2. The duration of the timer of a collapse waiter is \<open>lockTimeout\<close>, which
  NewRequestProcessor computes from the setting LockTimeout of the server, not from
  \<open>processTimeout\<close>: with RequestTimeout = 60 and LockTimeout = 30 the waiter arms its
  timer with 30 seconds, and \<open>processTimeout\<close> minus one second is 59 seconds.
\<close>

theorem C2_lockTimeout_not_processTimeout_minus_second:
  "lockTimeout (NewRequestProcessor server0) = 30 * Second \<and>
   processTimeout (NewRequestProcessor server0) - Second = 59 * Second \<and>
   lockTimeout (NewRequestProcessor server0) \<noteq> processTimeout (NewRequestProcessor server0) - Second \<and>
   traceOf (collapseGET envWaiter (NewRequestProcessor server0) get0 child0 LockClosed
      [FromParentChan, FromResChan] world0) =
     Some [LockCall ''/image.jpg-small'', NewTimer (30 * Second), StorageGet child0,
           StorageHead parent0]"
  by (simp add: ex_defs resp_defs proc_defs obs_defs NewRequestProcessor_def Let_def Second_def)

subsection \<open>The location of a bucket\<close>

text \<open>
  C8 as stated fails: the body of the answer to a \<open>location\<close> query is not the
  LocationConstraint element alone.
\<close>

theorem C8_body_is_not_the_element_alone:
  "bodyOf (process env0 rp0 reqLocation listing0 sched0 world0) \<noteq> Some locationConstraintElement"
  by (simp add: ex_defs resp_defs proc_defs obs_defs s3LocationStr_def
      locationConstraintElement_def NewRequestProcessor_def)

text \<open>
  C8, amended. For every GET or HEAD with an empty Key whose query has the parameter
  \<open>location\<close>, process returns a new response with status 200 whose body is the XML
  declaration followed by the LocationConstraint element, and makes no external call: the
  trace is unchanged, so storage is not consulted.
\<close>

theorem C8_location_response:
  assumes "Method req = ''GET'' \<or> Method req = ''HEAD''"
    and "Key obj = []"
    and "map_of (Query req) ''location'' \<noteq> None"
  shows "statusOf (process E r req obj sch w) = Some 200 \<and>
     bodyOf (process E r req obj sch w) = Some (xmlDeclaration @ locationConstraintElement) \<and>
     traceOf (process E r req obj sch w) = Some (trace w)"
  using assms
  by (auto simp add: process_def handleS3Get_def NewString_def alloc_def obs_defs
      s3LocationStr_def xmlDeclaration_def locationConstraintElement_def)

theorem C8_location_response_witness:
  "Method reqLocation = ''GET'' \<and> Key listing0 = [] \<and>
   map_of (Query reqLocation) ''location'' = Some [[]] \<and>
   statusOf (process env0 rp0 reqLocation listing0 sched0 world0) = Some 200 \<and>
   bodyOf (process env0 rp0 reqLocation listing0 sched0 world0) =
     Some (xmlDeclaration @ locationConstraintElement) \<and>
   traceOf (process env0 rp0 reqLocation listing0 sched0 world0) = Some []"
  using C8_location_response [of reqLocation listing0 env0 rp0 sched0 world0]
  by (simp add: reqLocation_def get0_def listing0_def world0_def)

subsection \<open>The listing of a bucket\<close>

lemma Atoi_fast_None: "Atoi_fast n s = None \<longleftrightarrow> \<not> list_all isDigit s"
  by (induction s arbitrary: n) auto

lemma ParseInt_cases:
  "ParseInt s = (0, ErrSyntax) \<or> ParseInt s = (2 ^ 63 - 1, ErrRange) \<or>
   ParseInt s = (- (2 ^ 63), ErrRange) \<or> snd (ParseInt s) = NoErr"
  by (auto simp: ParseInt_def Let_def split: list.splits prod.splits if_splits)

lemma Atoi_cases:
  "Atoi s = (0, ErrSyntax) \<or> Atoi s = (2 ^ 63 - 1, ErrRange) \<or>
   Atoi s = (- (2 ^ 63), ErrRange) \<or> snd (Atoi s) = NoErr"
  using ParseInt_cases [of s]
  by (auto simp: Atoi_def Let_def split: list.splits option.splits if_splits)

lemma Atoi_syntax_zero: "snd (Atoi s) = ErrSyntax \<Longrightarrow> fst (Atoi s) = 0"
  using Atoi_cases [of s] by auto

lemma Atoi_range_bound:
  "snd (Atoi s) = ErrRange \<Longrightarrow> fst (Atoi s) = 2 ^ 63 - 1 \<or> fst (Atoi s) = - (2 ^ 63)"
  using Atoi_cases [of s] by auto

lemma Atoi_short_malformed:
  assumes "\<not> isInteger s" and "length s < 19"
  shows "Atoi s = (0, ErrSyntax)"
proof (cases s)
  case Nil
  then show ?thesis by (simp add: Atoi_def ParseInt_def)
next
  case (Cons c cs)
  define ds where "ds = (if c = CHR ''-'' \<or> c = CHR ''+'' then cs else s)"
  have A: "Atoi s = (if length ds < 1 then (0, ErrSyntax)
                else (case Atoi_fast 0 ds of None \<Rightarrow> (0, ErrSyntax)
                      | Some n \<Rightarrow> (if c = CHR ''-'' then - n else n, NoErr)))"
    using Cons assms(2) by (simp add: Atoi_def Let_def ds_def)
  have "ds = [] \<or> \<not> list_all isDigit ds"
    using assms(1) Cons by (auto simp: isInteger_def Let_def ds_def)
  then show ?thesis
  proof
    assume "ds = []"
    then show ?thesis by (simp add: A)
  next
    assume "\<not> list_all isDigit ds"
    then have "Atoi_fast 0 ds = None" by (simp add: Atoi_fast_None)
    then show ?thesis by (simp add: A)
  qed
qed

lemma wellFormedQuery_index0:
  assumes "wellFormedQuery q" and "map_of q k = Some vs"
  shows "\<exists>v vs'. vs = v # vs' \<and> index0 vs = Some v"
proof -
  have "(k, vs) \<in> set q" using assms(2) by (rule map_of_SomeD)
  then have "vs \<noteq> []" using assms(1) by (auto simp: wellFormedQuery_def list_all_iff)
  then show ?thesis by (cases vs) (simp_all add: index0_def)
qed

lemma handleS3Get_listing:
  assumes loc: "map_of (Query req) ''location'' = None"
    and wf: "wellFormedQuery (Query req)"
  shows "handleS3Get E req obj w =
     Some (storageList E obj
        (case map_of (Query req) ''max-keys'' of Some (v # _) \<Rightarrow> fst (Atoi v) | _ \<Rightarrow> 1000)
        (queryOr (Query req) ''delimeter'') (queryOr (Query req) ''prefix'')
        (queryOr (Query req) ''marker'') w)"
  using loc wellFormedQuery_index0 [OF wf, of "''max-keys''"]
    wellFormedQuery_index0 [OF wf, of "''delimeter''"]
    wellFormedQuery_index0 [OF wf, of "''prefix''"]
    wellFormedQuery_index0 [OF wf, of "''marker''"]
  by (auto simp: handleS3Get_def Let_def queryOr_def split: option.splits)

text \<open>
  C10 as stated fails: the value \<open>99999999999999999999x\<close> of \<open>max-keys\<close> is not an
  integer, Atoi reports a range error for it (the overflow comes before the letter) with the
  largest int, and the listing is requested with maxKeys = 9223372036854775807, not 0.
\<close>

theorem C10_malformed_maxKeys_not_zero:
  "\<not> isInteger ''99999999999999999999x'' \<and>
   traceOf (process env0 rp0 reqMaxKeysLong listing0 sched0 world0) =
     Some [StorageList listing0 9223372036854775807 [] [] []]"
  by (simp add: ex_defs resp_defs proc_defs obs_defs isInteger_def isDigit_def digitVal_def
      Atoi_def ParseInt_def ParseUint_def maxUint64_def index0_def Let_def
      NewRequestProcessor_def)

text \<open>
  C10, amended. For every bucket listing (GET or HEAD, empty Key, no \<open>location\<close> in the
  query, a query as URL.Query() builds it): when \<open>max-keys\<close> is absent the listing is
  requested with maxKeys = 1000; when it is present with first value \<open>v\<close>, the error of
  Atoi is ignored and the listing is requested with the number Atoi returns, which is 0 when
  Atoi reports a syntax error (as for every \<open>v\<close> shorter than 19 bytes that is not an
  integer) and the largest or smallest int when it reports a range error.
\<close>

theorem C10_listing_maxKeys:
  assumes "Method req = ''GET'' \<or> Method req = ''HEAD''"
    and "Key obj = []"
    and "map_of (Query req) ''location'' = None"
    and "wellFormedQuery (Query req)"
  shows "(map_of (Query req) ''max-keys'' = None \<longrightarrow>
            traceOf (process E r req obj sch w) =
              Some (trace w @ [StorageList obj 1000 (queryOr (Query req) ''delimeter'')
                 (queryOr (Query req) ''prefix'') (queryOr (Query req) ''marker'')])) \<and>
         (\<forall>v vs. map_of (Query req) ''max-keys'' = Some (v # vs) \<longrightarrow>
            traceOf (process E r req obj sch w) =
              Some (trace w @ [StorageList obj (fst (Atoi v)) (queryOr (Query req) ''delimeter'')
                 (queryOr (Query req) ''prefix'') (queryOr (Query req) ''marker'')]) \<and>
            (snd (Atoi v) = ErrSyntax \<longrightarrow> fst (Atoi v) = 0) \<and>
            (\<not> isInteger v \<and> length v < 19 \<longrightarrow> fst (Atoi v) = 0) \<and>
            (snd (Atoi v) = ErrRange \<longrightarrow>
               fst (Atoi v) = 2 ^ 63 - 1 \<or> fst (Atoi v) = - (2 ^ 63)))"
proof -
  have p: "process E r req obj sch w = handleS3Get E req obj w"
    using assms(1,2) by (auto simp: process_def)
  show ?thesis
    unfolding p handleS3Get_listing [OF assms(3,4)]
    by (auto simp: traceOf_def storageList_def alloc_def emit_def Atoi_syntax_zero
        Atoi_short_malformed dest: Atoi_range_bound)
qed

theorem C10_listing_maxKeys_witness:
  "Method reqMaxKeysAbc = ''GET'' \<and> Key listing0 = [] \<and>
   map_of (Query reqMaxKeysAbc) ''location'' = None \<and>
   wellFormedQuery (Query reqMaxKeysAbc) \<and>
   map_of (Query reqMaxKeysAbc) ''max-keys'' = Some [''abc''] \<and>
   \<not> isInteger ''abc'' \<and> snd (Atoi ''abc'') = ErrSyntax \<and>
   traceOf (process env0 rp0 reqMaxKeysAbc listing0 sched0 world0) =
     Some [StorageList listing0 0 [] [] []] \<and>
   map_of (Query get0) ''max-keys'' = None \<and>
   traceOf (process env0 rp0 get0 listing0 sched0 world0) =
     Some [StorageList listing0 1000 [] [] []]"
  using C10_listing_maxKeys [of reqMaxKeysAbc listing0 env0 rp0 sched0 world0]
    C10_listing_maxKeys [of get0 listing0 env0 rp0 sched0 world0]
  by (simp add: reqMaxKeysAbc_def get0_def listing0_def world0_def wellFormedQuery_def
      queryOr_def isInteger_def isDigit_def Atoi_def)

subsection \<open>Error responses\<close>

text \<open>
  C3 as stated fails: for an object with transforms, not in debug mode, and with a
  placeholder configured, replyWithError still answers with the plain error when
  NewFileErrorObject fails.
\<close>

theorem C3_no_placeholder_without_error_object:
  "HasTransform child0 \<and> \<not> Debug child0 \<and> PlaceholderStr (serverConfig rp0) \<noteq> [] \<and>
   bodyOf (Some (replyWithError envNoErrorObject rp0 child0 500 ''boom'' world0)) \<noteq>
     Some (Buf (ServerPlaceholder (serverConfig rp0))) \<and>
   errorOf (Some (replyWithError envNoErrorObject rp0 child0 500 ''boom'' world0)) =
     Some (Some ''boom'')"
  by (simp add: ex_defs resp_defs proc_defs obs_defs NewRequestProcessor_def Let_def)

text \<open>
  C3, amended. The response of replyWithError always carries the status code it was given.
  A placeholder is substituted exactly when the object has transforms, debug mode is off, a
  placeholder is configured and the error object can be created: then the answer is the
  cached response of the error object with its status code set, or, when the cache has none,
  the bytes of the placeholder with its content type, while the transform of the
  placeholder is started in the background. In every other case the answer is a plain
  error response, which carries the error, and nothing else is called.
\<close>

theorem C3_replyWithError:
  assumes "replyWithError E r obj sc err w = (res, w')"
  shows "StatusCode (heap w' res) = sc \<and>
    (if HasTransform obj \<and> \<not> Debug obj \<and> PlaceholderStr (serverConfig r) \<noteq> [] then
       (case NewFileErrorObject E (PlaceholderStr (serverConfig r)) obj of
          None \<Rightarrow> ErrorValue (heap w' res) = Some err \<and> trace w' = trace w
        | Some errorObject \<Rightarrow>
            (case cache_Get E (lookups w) errorObject of
               Some v \<Rightarrow> heap w' res = v\<lparr>StatusCode := sc\<rparr> \<and>
                          trace w' = trace w @ [CacheGet errorObject]
             | None \<Rightarrow> Body (heap w' res) = Buf (ServerPlaceholder (serverConfig r)) \<and>
                       ErrorValue (heap w' res) = None \<and>
                       HeadersGet (heap w' res) ''Content-Type'' =
                         ContentType (ServerPlaceholder (serverConfig r)) \<and>
                       trace w' = trace w @ [CacheGet errorObject, GoPlaceholder errorObject sc]))
     else ErrorValue (heap w' res) = Some err \<and> trace w' = trace w)"
  using assms
  by (auto simp: replyWithError_def resp_defs Let_def split: if_splits option.splits prod.splits)

theorem C3_replyWithError_witness:
  "HasTransform child0 \<and> \<not> Debug child0 \<and> PlaceholderStr (serverConfig rp0) \<noteq> [] \<and>
   statusOf (Some (replyWithError env0 rp0 child0 503 ''throttled'' world0)) = Some 503 \<and>
   bodyOf (Some (replyWithError env0 rp0 child0 503 ''throttled'' world0)) = Some ''PNG'' \<and>
   \<not> HasTransform parent0 \<and>
   statusOf (Some (replyWithError env0 rp0 parent0 503 ''throttled'' world0)) = Some 503 \<and>
   errorOf (Some (replyWithError env0 rp0 parent0 503 ''throttled'' world0)) =
     Some (Some ''throttled'')"
  using C3_replyWithError [of env0 rp0 child0 503 "''throttled''" world0
      "fst (replyWithError env0 rp0 child0 503 ''throttled'' world0)"
      "snd (replyWithError env0 rp0 child0 503 ''throttled'' world0)"]
    C3_replyWithError [of env0 rp0 parent0 503 "''throttled''" world0
      "fst (replyWithError env0 rp0 parent0 503 ''throttled'' world0)"
      "snd (replyWithError env0 rp0 parent0 503 ''throttled'' world0)"]
  by (simp add: ex_defs resp_defs proc_defs obs_defs NewRequestProcessor_def Let_def)

subsection \<open>Header decoration\<close>

lemma updateHeaders_no_policy:
  assumes "headersLoop (CfgHeaders (mortConfig E)) res
      (case map_of (Buckets (mortConfig E)) (Bucket obj) of
         Some bucket \<Rightarrow> bucketHeadersLoop res (BucketHeaders bucket) w | None \<Rightarrow> w) = None"
    and "CtxS3Auth obj"
  shows "headerOf ''Cache-Control'' (Some (updateHeaders E obj res w)) = Some ''no-cache''"
  using assms
  by (simp add: updateHeaders_def headerOf_def Let_def Set_def modify_def HeadersGet_def)

text \<open>
  C7. The request carries the marker of an authenticated listing, the configuration has a
  header policy for the status code 200, and the response has status 200: updateHeaders
  returns from inside the loop over the policies and Cache-Control is not set. Without the
  policy the same request gets \<open>no-cache\<close>.
\<close>

theorem C7_policy_skips_no_cache:
  "CtxS3Auth objAuth \<and>
   statusOf (process envPolicy rp0 get0 objAuth sched0 world0) = Some 200 \<and>
   headerOf ''Cache-Control'' (process envPolicy rp0 get0 objAuth sched0 world0) = Some [] \<and>
   headerOf ''Cache-Control'' (process env0 rp0 get0 objAuth sched0 world0) = Some ''no-cache''"
  by (simp add: ex_defs resp_defs proc_defs obs_defs NewRequestProcessor_def Let_def)

subsection \<open>Collapse waiters\<close>

text \<open>
  C5. A waiter (the lock was not acquired) whose select takes the timer sends on Cancel,
  looks the object up in the response cache once, and returns the cached response on a hit;
  on a miss it returns what replyWithError gives for 504 and the timeout error, a response
  with status 504.
\<close>

theorem C5_timer_expiry:
  assumes "\<not> lock_Lock E (Key obj)"
  shows "\<exists>res w' rest. collapseGET E r req obj LockTimer ss w = Some (res, w') \<and>
     trace w' =
       trace w @ [LockCall (Key obj), NewTimer (lockTimeout r), CancelSent, CacheGet obj] @ rest \<and>
     (case cache_Get E (lookups w) obj of
        Some v \<Rightarrow> heap w' res = v \<and> rest = []
      | None \<Rightarrow> StatusCode (heap w' res) = 504 \<and>
          (res, w') = replyWithError E r obj 504 errTimeout
             ((emit (CacheGet obj) (emit CancelSent (emit (NewTimer (lockTimeout r))
                 (emit (LockCall (Key obj)) w))))\<lparr>lookups := Suc (lookups w)\<rparr>))"
  using assms
  by (auto simp: collapseGET_def replyWithError_def resp_defs Let_def
      split: if_splits option.splits prod.splits)

theorem C5_timer_expiry_witness:
  "\<not> lock_Lock envWaiterHit (Key child0) \<and>
   statusOf (collapseGET envWaiterHit rp0 get0 child0 LockTimer [] world0) = Some 200 \<and>
   bodyOf (collapseGET envWaiterHit rp0 get0 child0 LockTimer [] world0) = Some ''cached'' \<and>
   traceOf (collapseGET envWaiterHit rp0 get0 child0 LockTimer [] world0) =
     Some [LockCall (Key child0), NewTimer (lockTimeout rp0), CancelSent, CacheGet child0] \<and>
   \<not> lock_Lock envWaiter (Key child0) \<and>
   statusOf (collapseGET envWaiter rp0 get0 child0 LockTimer [] world0) = Some 504"
  using C5_timer_expiry [of envWaiterHit child0 rp0 get0 "[]" world0]
    C5_timer_expiry [of envWaiter child0 rp0 get0 "[]" world0]
  by (simp add: ex_defs resp_defs proc_defs obs_defs NewRequestProcessor_def Let_def)

text \<open>
  C6. A waiter whose select finds ResponseChan closed runs handleGET itself and returns its
  result.
\<close>

theorem C6_closed_channel_runs_handleGET:
  assumes "\<not> lock_Lock E (Key obj)"
  shows "collapseGET E r req obj LockClosed ss w =
     handleGET E r req obj ss (emit (NewTimer (lockTimeout r)) (emit (LockCall (Key obj)) w))"
  using assms by (simp add: collapseGET_def Let_def)

theorem C6_closed_channel_runs_handleGET_witness:
  "\<not> lock_Lock envWaiter (Key child0) \<and>
   collapseGET envWaiter rp0 get0 child0 LockClosed [FromParentChan, FromResChan] world0 =
     handleGET envWaiter rp0 get0 child0 [FromParentChan, FromResChan]
       (emit (NewTimer (lockTimeout rp0)) (emit (LockCall (Key child0)) world0)) \<and>
   statusOf (collapseGET envWaiter rp0 get0 child0 LockClosed [FromParentChan, FromResChan]
      world0) = Some 200"
  using C6_closed_channel_runs_handleGET
    [of envWaiter child0 rp0 get0 "[FromParentChan, FromResChan]" world0]
  by (simp add: ex_defs resp_defs proc_defs obs_defs NewRequestProcessor_def Let_def)

subsection \<open>Not-found recovery\<close>

text \<open>
  C9. handleNotFound closes the response \<open>res\<close> it is given (an allocated response) before
  anything else, and \<open>res\<close> is closed in the world it returns. So whenever it returns \<open>res\<close>
  itself, the returned response is closed; and it returns \<open>res\<close> when there is no parent,
  and when the HEAD of the parent (issued here, or received before when CheckParent is set)
  has no error and a status that is neither 404 nor 200, or is not an image.
\<close>

theorem C9_original_response_closed:
  assumes "handleNotFound E r obj parentObj tab parentRes res w = Some (out, w')"
    and "res < nextRef w"
  shows "Closed (heap w' res) \<and> (out = res \<longrightarrow> Closed (heap w' out)) \<and>
     (parentObj = None \<longrightarrow> out = res) \<and>
     (\<forall>p. parentObj = Some p \<and> \<not> CheckParent obj \<and> \<not> HasError (storage_Head E p) \<and>
          StatusCode (storage_Head E p) \<noteq> 404 \<and>
          (StatusCode (storage_Head E p) \<noteq> 200 \<or>
           \<not> IsImage E ((storage_Head E p)\<lparr>Closed := True\<rparr>)) \<longrightarrow> out = res) \<and>
     (\<forall>p pr. parentObj = Some p \<and> CheckParent obj \<and> parentRes = Some pr \<and> pr \<noteq> res \<and>
          \<not> HasError (heap w pr) \<and> StatusCode (heap w pr) \<noteq> 404 \<and>
          (StatusCode (heap w pr) \<noteq> 200 \<or> \<not> IsImage E ((heap w pr)\<lparr>Closed := True\<rparr>)) \<longrightarrow>
          out = res)"
proof -
  have cl: "Closed (heap w' res)"
    using handleNotFound_result [OF assms] by blast
  have a: "parentObj = None \<longrightarrow> out = res"
    using assms(1) by (auto simp: handleNotFound_def Let_def)
  have b: "\<forall>p. parentObj = Some p \<and> \<not> CheckParent obj \<and> \<not> HasError (storage_Head E p) \<and>
          StatusCode (storage_Head E p) \<noteq> 404 \<and>
          (StatusCode (storage_Head E p) \<noteq> 200 \<or>
           \<not> IsImage E ((storage_Head E p)\<lparr>Closed := True\<rparr>)) \<longrightarrow> out = res"
    using assms(1)
    by (auto simp: handleNotFound_def Let_def storageHead_def alloc_def emit_def Close_def
        modify_def HasError_def)
  have c: "\<forall>p pr. parentObj = Some p \<and> CheckParent obj \<and> parentRes = Some pr \<and> pr \<noteq> res \<and>
          \<not> HasError (heap w pr) \<and> StatusCode (heap w pr) \<noteq> 404 \<and>
          (StatusCode (heap w pr) \<noteq> 200 \<or> \<not> IsImage E ((heap w pr)\<lparr>Closed := True\<rparr>)) \<longrightarrow>
          out = res"
    using assms(1)
    by (auto simp: handleNotFound_def Let_def Close_def modify_def HasError_def)
  show ?thesis using cl a b c by blast
qed


theorem C9_original_response_closed_witness:
  "0 < nextRef world1 \<and>
   map_option fst (handleNotFound env0 rp0 parent0 None [] None 0 world1) = Some 0 \<and>
   closedAt 0 (handleNotFound env0 rp0 parent0 None [] None 0 world1) = Some True \<and>
   \<not> CheckParent childNoCheck \<and> \<not> HasError (storage_Head envNotImage parent0) \<and>
   StatusCode (storage_Head envNotImage parent0) \<noteq> 404 \<and>
   \<not> IsImage envNotImage ((storage_Head envNotImage parent0)\<lparr>Closed := True\<rparr>) \<and>
   map_option fst (handleNotFound envNotImage rp0 childNoCheck (Some parent0) [] None 0 world1) =
     Some 0 \<and>
   closedAt 0 (handleNotFound envNotImage rp0 childNoCheck (Some parent0) [] None 0 world1) =
     Some True"
proof -
  have v: "0 < nextRef world1"
    by (simp add: world1_def alloc_def)
  obtain out1 w1 where
    h1: "handleNotFound env0 rp0 parent0 None [] None 0 world1 = Some (out1, w1)"
    by (simp add: handleNotFound_def Let_def)
  obtain out2 w2 where
    h2: "handleNotFound envNotImage rp0 childNoCheck (Some parent0) [] None 0 world1 =
           Some (out2, w2)"
    by (simp add: handleNotFound_def Let_def ex_defs resp_defs split: prod.splits)
  have s: "\<not> CheckParent childNoCheck \<and> \<not> HasError (storage_Head envNotImage parent0) \<and>
     StatusCode (storage_Head envNotImage parent0) \<noteq> 404 \<and>
     \<not> IsImage envNotImage ((storage_Head envNotImage parent0)\<lparr>Closed := True\<rparr>)"
    by (simp add: ex_defs resp_defs)
  from C9_original_response_closed [OF h1 v] C9_original_response_closed [OF h2 v] s v
  show ?thesis
    by (simp add: h1 h2 closedAt_def)
qed

subsection \<open>The loop of the direct GET\<close>

lemma quietBut_no_set: "quietBut po new \<Longrightarrow> \<forall>e \<in> set new. \<not> isGoCacheSet e"
  by (auto simp: quietBut_def)

lemma answers404_calm: "calm new \<Longrightarrow> answers404 E new out w'"
  by (auto simp: answers404_def calm_def)

lemma answers404_prefix:
  "calm n0 \<Longrightarrow> answers404 E n1 out w' \<Longrightarrow> answers404 E (n0 @ n1) out w'"
  by (auto simp: answers404_def calm_def)

lemma answers404_suffix:
  assumes "answers404 E n1 out w1" and "extends w1 w2 n2" and "\<forall>q. StorageHead q \<notin> set n2"
    and "out < nextRef w1"
  shows "answers404 E (n1 @ n2) out w2"
  using assms by (auto simp: answers404_def extends_def)

lemma ctx_done_reply:
  assumes "replyWithError E r obj 499 err (emit CtxDoneTaken w) = (out, w')"
  shows "StatusCode (heap w' out) = 499 \<and> out < nextRef w' \<and>
     (\<exists>n. extends w w' (CtxDoneTaken # n) \<and> calm n)"
proof -
  from replyWithError_result [OF assms] obtain n where
    "StatusCode (heap w' out) = 499" "out < nextRef w'"
    "extends (emit CtxDoneTaken w) w' n" "calm n" by blast
  with extends_trans [OF extends_emit [of w CtxDoneTaken]] show ?thesis
    by (intro conjI exI [of _ n]) auto
qed

lemma handleGET_loop_result:
  assumes "handleGET_loop E r obj po tab res pc pr ss w = Some (out, w')"
    and "res < nextRef w"
    and "\<forall>h. pc = Some h \<longrightarrow> h < nextRef w"
    and "\<forall>h. pr = Some h \<longrightarrow> h < nextRef w"
  shows "out < nextRef w' \<and>
     (\<exists>new. extends w w' new \<and> quietBut po new \<and>
        (\<forall>q. StorageHead q \<in> set new \<longrightarrow> \<not> CheckParent obj) \<and> answers404 E new out w')"
  using assms
proof (induction ss arbitrary: pc pr)
  case Nil
  then have "replyWithError E r obj 499 errContextCancel (emit CtxDoneTaken w) = (out, w')"
    by simp
  from ctx_done_reply [OF this] obtain n where
    "out < nextRef w'" "extends w w' (CtxDoneTaken # n)" "calm n" by blast
  then show ?case
    by (intro conjI exI [of _ "CtxDoneTaken # n"])
      (auto simp: calm_quietBut calm_no_head answers404_def)
next
  case (Cons s ss)
  show ?case
  proof (cases s)
    case CtxDone
    with Cons.prems have
      "replyWithError E r obj 499 errContextCancel (emit CtxDoneTaken w) = (out, w')"
      by simp
    from ctx_done_reply [OF this] obtain n where
      "out < nextRef w'" "extends w w' (CtxDoneTaken # n)" "calm n" by blast
    then show ?thesis
      by (intro conjI exI [of _ "CtxDoneTaken # n"])
        (auto simp: calm_quietBut calm_no_head answers404_def)
  next
    case FromParentChan
    show ?thesis
    proof (cases pc)
      case None
      with FromParentChan Cons.prems show ?thesis
        by (intro Cons.IH [of pc pr]) auto
    next
      case (Some h)
      show ?thesis
      proof (cases "StatusCode (heap w h) = 404")
        case True
        with Some FromParentChan Cons.prems have "out = h" "w' = w" by auto
        with Some Cons.prems show ?thesis
          by (auto intro!: exI [of _ "[]"] simp: extends_refl answers404_def)
      next
        case False
        with Some FromParentChan Cons.prems show ?thesis
          by (intro Cons.IH [of None "Some h"]) auto
      qed
    qed
  next
    case FromResChan
    show ?thesis
    proof (cases "CheckParent obj \<and> po \<noteq> None \<and>
         (case pr of None \<Rightarrow> True | Some p \<Rightarrow> StatusCode (heap w p) = 0)")
      case True
      with FromResChan Cons.prems show ?thesis
        by (intro Cons.IH [of pc pr]) auto
    next
      case norequeue: False
      show ?thesis
      proof (cases "StatusCode (heap w res) = 404")
        case False
        with norequeue FromResChan Cons.prems have "out = res" "w' = w" by auto
        with Cons.prems show ?thesis
          by (auto intro!: exI [of _ "[]"] simp: extends_refl answers404_def)
      next
        case True
        then obtain o1 w1 where
          hnf: "handleNotFound E r obj po tab pr res w = Some (o1, w1)"
          and fin: "(case ss of CtxDone # _ \<Rightarrow> Some (o1, Close o1 (emit CtxDoneTaken w1))
                     | _ \<Rightarrow> Some (o1, w1)) = Some (out, w')"
          using norequeue FromResChan Cons.prems(1)
          by (auto split: option.splits)
        from handleNotFound_result [OF hnf Cons.prems(2)] Cons.prems(4) obtain n1 where
          o1: "o1 < nextRef w1" and e1: "extends w w1 n1" and q1: "quietBut po n1"
          and h1: "\<forall>q. StorageHead q \<in> set n1 \<longrightarrow> \<not> CheckParent obj \<and>
             (StatusCode (storage_Head E q) = 404 \<longrightarrow> StatusCode (heap w1 o1) = 404)"
          by blast
        have a1: "answers404 E n1 o1 w1" using h1 by (auto simp: answers404_def)
        show ?thesis
        proof (cases "\<exists>ss'. ss = CtxDone # ss'")
          case True
          with fin have ow: "out = o1" "w' = Close o1 (emit CtxDoneTaken w1)" by auto
          have e2: "extends w1 w' [CtxDoneTaken]"
            unfolding ow using extends_trans [OF extends_emit extends_Close] by simp
          have "answers404 E (n1 @ [CtxDoneTaken]) out w'"
            using answers404_suffix [OF a1 e2 _ o1] ow by simp
          with extends_trans [OF e1 e2] q1 h1 o1 ow show ?thesis
            by (intro conjI exI [of _ "n1 @ [CtxDoneTaken]"])
              (auto simp: Close_nextRef emit_def)
        next
          case False
          with fin have ow: "out = o1" "w' = w1"
            by (auto split: list.splits select.splits)
          with o1 e1 q1 h1 a1 show ?thesis by blast
        qed
      qed
    qed
  qed
qed

lemma handleGET_loop_parent404:
  assumes "handleGET_loop E r obj po tab res (Some h) None ss w = Some (out, w')"
    and "CheckParent obj" and "po \<noteq> None" and "StatusCode (heap w h) = 404"
  shows "StatusCode (heap w' out) = 404 \<or>
     (StatusCode (heap w' out) = 499 \<and> (\<exists>n. trace w' = trace w @ CtxDoneTaken # n))"
  using assms
proof (induction ss)
  case Nil
  then have "replyWithError E r obj 499 errContextCancel (emit CtxDoneTaken w) = (out, w')"
    by simp
  from ctx_done_reply [OF this] show ?case by (auto simp: extends_def)
next
  case (Cons s ss)
  show ?case
  proof (cases s)
    case CtxDone
    with Cons.prems have
      "replyWithError E r obj 499 errContextCancel (emit CtxDoneTaken w) = (out, w')"
      by simp
    from ctx_done_reply [OF this] show ?thesis by (auto simp: extends_def)
  next
    case FromResChan
    with Cons show ?thesis by auto
  next
    case FromParentChan
    with Cons.prems show ?thesis by auto
  qed
qed

subsection \<open>The GET pipeline\<close>

lemma handleGET_result:
  assumes hg: "handleGET E r req obj ss w = Some (out, w')"
  shows "out < nextRef w' \<and>
     (\<exists>new. extends w w' new \<and> (\<forall>e \<in> set new. \<not> isGoCacheSet e) \<and> answers404 E new out w')"
proof -
  obtain po tab where sr: "searchRoot obj [] = (po, tab)" by (cases "searchRoot obj []")
  obtain res w1 where sg: "storageGet E obj w = (res, w1)" by (cases "storageGet E obj w")
  note g = extends_storageGet [OF sg]
  show ?thesis
  proof (cases "\<exists>p. po = Some p \<and> CheckParent obj")
    case True
    then obtain p where p: "po = Some p" and cp: "CheckParent obj" by blast
    obtain h w2 where sh: "storageHead E p w1 = (h, w2)" by (cases "storageHead E p w1")
    note hh = extends_storageHead [OF sh]
    have loop: "handleGET_loop E r obj po tab res (Some h) None ss w2 = Some (out, w')"
      using hg sr sg p cp sh by (simp add: handleGET_def)
    have "res < nextRef w2" "\<forall>x. Some h = Some x \<longrightarrow> x < nextRef w2"
      using g hh by (auto simp: extends_def)
    from handleGET_loop_result [OF loop this(1) this(2)] obtain n where
      o: "out < nextRef w'" and e: "extends w2 w' n" and q: "quietBut po n"
      and nh: "\<forall>q. StorageHead q \<notin> set n"
      using cp by auto
    have e0: "extends w w2 ([StorageGet obj] @ [StorageHead p])"
      using g hh by (blast intro: extends_trans)
    have ew: "extends w w' ([StorageGet obj, StorageHead p] @ n)"
      using extends_trans [OF e0 e] by simp
    have a: "answers404 E ([StorageGet obj, StorageHead p] @ n) out w'"
    proof (cases "StatusCode (storage_Head E p) = 404")
      case False
      with nh show ?thesis by (auto simp: answers404_def)
    next
      case True
      with hh have "StatusCode (heap w2 h) = 404" by auto
      from handleGET_loop_parent404 [OF loop cp _ this] p
      have "StatusCode (heap w' out) = 404 \<or>
        (StatusCode (heap w' out) = 499 \<and> (\<exists>m. trace w' = trace w2 @ CtxDoneTaken # m))"
        by simp
      moreover have "trace w' = trace w2 @ n" using e by (simp add: extends_def)
      ultimately show ?thesis by (auto simp: answers404_def)
    qed
    from o ew a q show ?thesis
      by (intro conjI exI [of _ "[StorageGet obj, StorageHead p] @ n"])
        (auto dest: quietBut_no_set)
  next
    case False
    then have loop: "handleGET_loop E r obj po tab res None None ss w1 = Some (out, w')"
      using hg sr sg by (auto simp: handleGET_def split: option.splits if_splits)
    have "res < nextRef w1" using g by simp
    from handleGET_loop_result [OF loop this] obtain n where
      o: "out < nextRef w'" and e: "extends w1 w' n" and q: "quietBut po n"
      and a: "answers404 E n out w'"
      by auto
    have ew: "extends w w' ([StorageGet obj] @ n)"
      using g e by (blast intro: extends_trans)
    have "answers404 E ([StorageGet obj] @ n) out w'"
      using a by (intro answers404_prefix) simp_all
    with o ew q show ?thesis
      by (intro conjI exI [of _ "[StorageGet obj] @ n"]) (auto dest: quietBut_no_set)
  qed
qed


lemma extends_responseCacheGet:
  assumes "responseCacheGet E o' w = (x, w')"
  shows "extends w w' [CacheGet o'] \<and>
     (case x of None \<Rightarrow> cache_Get E (lookups w) o' = None
      | Some res \<Rightarrow> res < nextRef w' \<and> nextRef w \<le> res \<and>
          cache_Get E (lookups w) o' = Some (heap w' res))"
  using assms
  by (auto simp: responseCacheGet_def alloc_def emit_def extends_def Let_def
      split: option.splits prod.splits)

lemma calm_result:
  assumes "out < nextRef w'" and "extends w w' new" and "calm new"
  shows "out < nextRef w' \<and>
     (\<exists>new. extends w w' new \<and> (\<forall>e \<in> set new. \<not> isGoCacheSet e) \<and> answers404 E new out w')"
  using assms by (auto simp: answers404_calm calm_def intro!: exI [of _ new])

lemma wrap_result:
  assumes inner: "out < nextRef w1 \<and>
     (\<exists>new. extends w0 w1 new \<and> (\<forall>e \<in> set new. \<not> isGoCacheSet e) \<and> answers404 E new out w1)"
    and pre: "extends w w0 n0" "calm n0"
    and post: "extends w1 w' n2" "calm n2"
  shows "out < nextRef w' \<and>
     (\<exists>new. extends w w' new \<and> (\<forall>e \<in> set new. \<not> isGoCacheSet e) \<and> answers404 E new out w')"
proof -
  from inner obtain n where o: "out < nextRef w1" and e: "extends w0 w1 n"
    and ns: "\<forall>e \<in> set n. \<not> isGoCacheSet e" and a: "answers404 E n out w1" by blast
  have nh: "\<forall>q. StorageHead q \<notin> set n2" using post(2) by (auto simp: calm_def)
  have "answers404 E (n @ n2) out w'" by (rule answers404_suffix [OF a post(1) nh o])
  then have a': "answers404 E (n0 @ n @ n2) out w'" by (rule answers404_prefix [OF pre(2)])
  have e': "extends w w' (n0 @ n @ n2)"
    using extends_trans [OF pre(1) extends_trans [OF e post(1)]] .
  have "out < nextRef w'" using o post(1) by (auto simp: extends_def)
  with e' a' ns pre(2) post(2) show ?thesis
    by (intro conjI exI [of _ "n0 @ n @ n2"]) (auto simp: calm_def)
qed

lemma collapseGET_result:
  assumes cg: "collapseGET E r req obj ls ss w = Some (out, w')"
  shows "out < nextRef w' \<and>
     (\<exists>new. extends w w' new \<and> (\<forall>e \<in> set new. \<not> isGoCacheSet e) \<and> answers404 E new out w')"
proof (cases "lock_Lock E (Key obj)")
  case True
  then obtain w2 where hg: "handleGET E r req obj ss (emit (LockCall (Key obj)) w) = Some (out, w2)"
    and w': "w' = emit (NotifyAndRelease (Key obj) out) w2"
    using cg by (auto simp: collapseGET_def Let_def split: option.splits)
  have post: "extends w2 w' [NotifyAndRelease (Key obj) out]"
    unfolding w' by (rule extends_emit)
  show ?thesis
    by (rule wrap_result [OF handleGET_result [OF hg] extends_emit _ post]) simp_all
next
  case False
  define w2 where "w2 = emit (NewTimer (lockTimeout r)) (emit (LockCall (Key obj)) w)"
  have e2: "extends w w2 [LockCall (Key obj), NewTimer (lockTimeout r)]"
    unfolding w2_def using extends_trans [OF extends_emit extends_emit] by simp
  have c2: "calm [LockCall (Key obj), NewTimer (lockTimeout r)]" by simp
  show ?thesis
  proof (cases ls)
    case LockCtxDone
    with False cg have rw: "replyWithError E r obj 504 errContextCancel
        (emit CancelSent (emit CtxDoneTaken w2)) = (out, w')"
      by (simp add: collapseGET_def Let_def w2_def)
    from replyWithError_result [OF rw] obtain n where
      o: "out < nextRef w'" and e: "extends (emit CancelSent (emit CtxDoneTaken w2)) w' n"
      and c: "calm n" by blast
    have "extends w w' ([LockCall (Key obj), NewTimer (lockTimeout r)] @ [CtxDoneTaken] @ [CancelSent] @ n)"
      by (intro extends_trans [OF e2] extends_trans [OF extends_emit] extends_trans [OF extends_emit] e)
    from calm_result [OF o this] c show ?thesis by simp
  next
    case (LockResponse v)
    with False cg have al: "alloc v w2 = (out, w')"
      by (simp add: collapseGET_def Let_def w2_def)
    from extends_alloc [OF al] extends_trans [OF e2] have
      "out < nextRef w'" "extends w w' ([LockCall (Key obj), NewTimer (lockTimeout r)] @ [])"
      by auto
    from calm_result [OF this] show ?thesis by simp
  next
    case LockClosed
    with False cg have hg: "handleGET E r req obj ss w2 = Some (out, w')"
      by (simp add: collapseGET_def Let_def w2_def)
    show ?thesis
      by (rule wrap_result [OF handleGET_result [OF hg] e2 c2 extends_refl]) simp
  next
    case LockTimer
    obtain x w3 where rc: "responseCacheGet E obj (emit CancelSent w2) = (x, w3)"
      by (cases "responseCacheGet E obj (emit CancelSent w2)")
    note f = extends_responseCacheGet [OF rc]
    have e3: "extends w w3 ([LockCall (Key obj), NewTimer (lockTimeout r)] @ [CancelSent] @ [CacheGet obj])"
      using f by (intro extends_trans [OF e2] extends_trans [OF extends_emit]) simp
    show ?thesis
    proof (cases x)
      case (Some c)
      with LockTimer False cg rc have "out = c" "w' = w3"
        by (auto simp: collapseGET_def Let_def w2_def)
      with f Some e3 have "out < nextRef w'"
        "extends w w' ([LockCall (Key obj), NewTimer (lockTimeout r)] @ [CancelSent] @ [CacheGet obj])"
        by auto
      from calm_result [OF this] show ?thesis by simp
    next
      case None
      with LockTimer False cg rc have rw: "replyWithError E r obj 504 errTimeout w3 = (out, w')"
        by (auto simp: collapseGET_def Let_def w2_def)
      from replyWithError_result [OF rw] obtain n where
        o: "out < nextRef w'" and e: "extends w3 w' n" and c: "calm n" by blast
      from calm_result [OF o extends_trans [OF e3 e]] c show ?thesis by simp
    qed
  qed
qed

lemma extends_Set: "extends w (Set x h v w) []"
  by (simp add: Set_def modify_def extends_def)

lemma extends_foldl:
  assumes "\<And>w a. extends w (f w a) []"
  shows "extends w (foldl f w xs) []"
proof (induction xs arbitrary: w)
  case Nil
  show ?case by (simp add: extends_refl)
next
  case (Cons a xs)
  from extends_trans [OF assms [of w a] Cons.IH [of "f w a"]] show ?case by simp
qed

lemma extends_bucketHeadersLoop: "extends w (bucketHeadersLoop res hs w) []"
  unfolding bucketHeadersLoop_def
  by (rule extends_foldl) (auto simp: extends_refl extends_Set)

lemma extends_valuesLoop: "extends w (valuesLoop res hp w) []"
  unfolding valuesLoop_def
  by (rule extends_foldl) (auto simp: extends_refl extends_Set)

lemma extends_headersLoop: "headersLoop hs res w = Some w' \<Longrightarrow> extends w w' []"
  by (induction hs) (auto simp: extends_valuesLoop split: if_splits)

lemma updateHeaders_frame:
  assumes "updateHeaders E obj res w = (out, w')"
  shows "out = res \<and> extends w w' []"
proof -
  define w1 where "w1 = (case map_of (Buckets (mortConfig E)) (Bucket obj) of
      Some bucket \<Rightarrow> bucketHeadersLoop res (BucketHeaders bucket) w | None \<Rightarrow> w)"
  have e1: "extends w w1 []"
    by (simp add: w1_def extends_refl extends_bucketHeadersLoop split: option.splits)
  have "out = res \<and> extends w1 w' []"
    using assms unfolding updateHeaders_def Let_def w1_def [symmetric]
    by (auto simp: extends_refl extends_Set dest: extends_headersLoop
        split: option.splits if_splits)
  with extends_trans [OF e1] show ?thesis by auto
qed

lemma cacheResponse_frame:
  assumes "cacheResponse E r obj res w = (out, w')" and "res < nextRef w"
  shows "out = res \<and> heap w' res = heap w res \<and>
     (if IsCacheable E (heap w res) \<and> ContentLength (heap w res) \<noteq> -1 \<and>
         ContentLength (heap w res) < MaxCacheItemSize (serverConfig r) \<and>
         \<not> CopyFails E (heap w res)
      then \<exists>cpy. extends w w' [GoCacheSet obj cpy] \<and> cpy \<noteq> res \<and> heap w' cpy = heap w res
      else extends w w' [])"
  using assms
  by (auto simp: cacheResponse_def Copy_def alloc_def emit_def extends_def
      split: if_splits prod.splits option.splits)

lemma handleS3Get_result:
  assumes "handleS3Get E req obj w = Some (out, w')"
  shows "out < nextRef w' \<and> (\<exists>new. extends w w' new \<and> calm new)"
  using assms
  by (auto simp: handleS3Get_def NewString_def storageList_def alloc_def emit_def extends_def
      calm_def Let_def split: option.splits Option.bind_splits)

lemma pipeline_result:
  assumes "(if HasTransform obj then collapseGET E r req obj ls ss w
            else handleGET E r req obj ss w) = Some (out, w')"
  shows "out < nextRef w' \<and>
     (\<exists>new. extends w w' new \<and> (\<forall>e \<in> set new. \<not> isGoCacheSet e) \<and> answers404 E new out w')"
  using assms collapseGET_result [of E r req obj ls ss w out w']
    handleGET_result [of E r req obj ss w out w']
  by (auto split: if_splits)

lemma process_result:
  assumes pr: "process E r req obj sch w = Some (out, w')"
  shows "out < nextRef w' \<and> (\<exists>new. extends w w' new \<and> answers404 E new out w')"
proof -
  have calmI: "\<And>new. out < nextRef w' \<Longrightarrow> extends w w' new \<Longrightarrow> calm new \<Longrightarrow> ?thesis"
    using calm_result by blast
  consider (list) "(Method req = ''GET'' \<or> Method req = ''HEAD'')" "Key obj = []"
    | (get) "(Method req = ''GET'' \<or> Method req = ''HEAD'')" "Key obj \<noteq> []"
    | (put) "\<not> (Method req = ''GET'' \<or> Method req = ''HEAD'')" "Method req = ''PUT''"
    | (delete) "\<not> (Method req = ''GET'' \<or> Method req = ''HEAD'')" "Method req \<noteq> ''PUT''"
        "Method req = ''DELETE''"
    | (other) "\<not> (Method req = ''GET'' \<or> Method req = ''HEAD'')" "Method req \<noteq> ''PUT''"
        "Method req \<noteq> ''DELETE''"
    by blast
  then show ?thesis
  proof cases
    case list
    with pr have "handleS3Get E req obj w = Some (out, w')" by (auto simp: process_def)
    from handleS3Get_result [OF this] calmI show ?thesis by blast
  next
    case put
    with pr have "storageSet E obj req (emit (GoCacheDelete obj) w) = (out, w')"
      by (simp add: process_def handlePUT_def)
    then have "out < nextRef w'" "extends w w' [GoCacheDelete obj, StorageSet obj]"
      by (auto simp: storageSet_def alloc_def emit_def extends_def)
    from calmI [OF this] show ?thesis by simp
  next
    case delete
    with pr have "storageDelete E obj (emit (GoCacheDelete obj) w) = (out, w')"
      by (simp add: process_def)
    then have "out < nextRef w'" "extends w w' [GoCacheDelete obj, StorageDelete obj]"
      by (auto simp: storageDelete_def alloc_def emit_def extends_def)
    from calmI [OF this] show ?thesis by simp
  next
    case other
    with pr have "NewError 405 ''method not allowed'' w = (out, w')"
      by (simp add: process_def)
    then have "out < nextRef w'" "extends w w' []"
      by (auto simp: NewError_def alloc_def extends_def)
    from calmI [OF this] show ?thesis by simp
  next
    case get
    obtain x w1 where rc: "responseCacheGet E obj w = (x, w1)"
      by (cases "responseCacheGet E obj w")
    note f = extends_responseCacheGet [OF rc]
    show ?thesis
    proof (cases x)
      case (Some c)
      with get pr rc have "out = c" "w' = w1" by (auto simp: process_def)
      with f Some have "out < nextRef w'" "extends w w' [CacheGet obj]" by auto
      from calmI [OF this] show ?thesis by simp
    next
      case None
      then obtain res0 w2 where
        inner: "(if HasTransform obj
                 then collapseGET E r req obj (lockSel sch) (getSel sch) w1
                 else handleGET E r req obj (getSel sch) w1) = Some (res0, w2)"
        and rest: "(case updateHeaders E obj res0 w2 of
                      (res, w3) \<Rightarrow> Some (cacheResponse E r obj res w3)) = Some (out, w')"
        using get pr rc by (auto simp: process_def split: option.splits)
      obtain w3 where uh: "updateHeaders E obj res0 w2 = (res0, w3)"
        using updateHeaders_frame [of E obj res0 w2] by (cases "updateHeaders E obj res0 w2") auto
      with rest have cr: "cacheResponse E r obj res0 w3 = (out, w')" by simp
      from pipeline_result [OF inner] obtain n where
        o: "res0 < nextRef w2" and e: "extends w1 w2 n" and a: "answers404 E n res0 w2" by blast
      have e3: "extends w2 w3 []" using updateHeaders_frame [OF uh] by simp
      have o3: "res0 < nextRef w3" using o e3 by (auto simp: extends_def)
      from cacheResponse_frame [OF cr o3] obtain n4 where
        out: "out = res0" and e4: "extends w3 w' n4" and nh: "\<forall>q. StorageHead q \<notin> set n4"
        by (auto split: if_splits)
      have e24: "extends w2 w' ([] @ n4)" using extends_trans [OF e3 e4] .
      have a1: "answers404 E (n @ n4) res0 w'"
        using answers404_suffix [OF a e24 _ o] nh by simp
      have "answers404 E ([CacheGet obj] @ (n @ n4)) res0 w'"
        by (rule answers404_prefix) (simp, rule a1)
      then have a': "answers404 E ([CacheGet obj] @ n @ n4) out w'"
        by (simp add: out)
      have "extends w w' ([CacheGet obj] @ n @ ([] @ n4))"
        using f e e24 by (blast intro: extends_trans)
      then have e': "extends w w' ([CacheGet obj] @ n @ n4)" by simp
      have "out < nextRef w'" using out o3 e4 by (auto simp: extends_def)
      with e' a' show ?thesis by blast
    qed
  qed
qed

lemma Process_result:
  assumes P: "Process E r req obj0 sch w = Some (out, w')"
  shows "out < nextRef w' \<and> (\<exists>new. extends w w' new \<and> answers404 E new out w')"
proof -
  let ?obj = "PreProcess E (FillWithRequest E req obj0) req"
  obtain res w1 where pr: "process E r req ?obj sch (emit PreProcessHook w) = Some (res, w1)"
    and fin: "(if processCtxDone sch then
                 Some (replyWithError E r ?obj 499 errContextCancel
                         (Close res (emit CloseCancel (emit CtxDoneTaken w1))))
               else Some (res, emit (PostProcessHook res) w1)) = Some (out, w')"
    using P unfolding Process_def Let_def by (cases "process E r req ?obj sch (emit PreProcessHook w)") auto
  from process_result [OF pr] obtain n where
    o: "res < nextRef w1" and e: "extends (emit PreProcessHook w) w1 n"
    and a: "answers404 E n res w1" by blast
  have e1: "extends w w1 ([PreProcessHook] @ n)"
    using extends_trans [OF extends_emit e] .
  show ?thesis
  proof (cases "processCtxDone sch")
    case True
    with fin have rw: "replyWithError E r ?obj 499 errContextCancel
        (Close res (emit CloseCancel (emit CtxDoneTaken w1))) = (out, w')" by simp
    from replyWithError_result [OF rw] obtain m where
      st: "StatusCode (heap w' out) = 499" and o': "out < nextRef w'"
      and em: "extends (Close res (emit CloseCancel (emit CtxDoneTaken w1))) w' m" by blast
    have "extends w1 w' ([CtxDoneTaken] @ [CloseCancel] @ [] @ m)"
      by (rule extends_trans [OF extends_emit], rule extends_trans [OF extends_emit],
          rule extends_trans [OF extends_Close [of _ res]], rule em)
    from extends_trans [OF e1 this]
    have e': "extends w w' (([PreProcessHook] @ n) @ [CtxDoneTaken] @ [CloseCancel] @ [] @ m)" .
    have "answers404 E (([PreProcessHook] @ n) @ [CtxDoneTaken] @ [CloseCancel] @ [] @ m) out w'"
      using st by (simp add: answers404_def)
    with o' e' show ?thesis by blast
  next
    case False
    with fin have ow: "out = res" "w' = emit (PostProcessHook res) w1" by auto
    have e2: "extends w1 w' [PostProcessHook res]" unfolding ow by (rule extends_emit)
    have a1: "answers404 E (n @ [PostProcessHook res]) res w'"
      using answers404_suffix [OF a e2 _ o] by simp
    have "answers404 E ([PreProcessHook] @ (n @ [PostProcessHook res])) res w'"
      by (rule answers404_prefix) (simp, rule a1)
    then have a': "answers404 E ([PreProcessHook] @ n @ [PostProcessHook res]) out w'"
      by (simp add: ow(1))
    have e': "extends w w' ([PreProcessHook] @ n @ [PostProcessHook res])"
      using extends_trans [OF e1 e2] by simp
    have "out < nextRef w'" using ow o by (simp add: emit_def)
    with e' a' show ?thesis by blast
  qed
qed


subsection \<open>No panic\<close>

text \<open>The only results \<open>None\<close> of the embedding are the index out of range of a listing
  whose query maps a key to no value, and the nil dereference of handleNotFound when
  CheckParent is set and no HEAD was received; the loop of handleGET never calls it so.
  For an object with a key, process and Process always return a response.\<close>

lemma handleNotFound_returns:
  assumes "parentObj = None \<or> \<not> CheckParent obj \<or> parentRes \<noteq> None"
  shows "\<exists>out w'. handleNotFound E r obj parentObj tab parentRes res w = Some (out, w')"
  using assms
  by (auto simp: handleNotFound_def Let_def split: option.splits prod.splits)

lemma handleGET_loop_returns:
  "\<exists>out w'. handleGET_loop E r obj po tab res pc pr ss w = Some (out, w')"
proof (induction ss arbitrary: pc pr)
  case Nil
  show ?case by (cases "replyWithError E r obj 499 errContextCancel (emit CtxDoneTaken w)") simp
next
  case (Cons s ss)
  show ?case
  proof (cases s)
    case CtxDone
    then show ?thesis
      by (cases "replyWithError E r obj 499 errContextCancel (emit CtxDoneTaken w)") simp
  next
    case FromParentChan
    then show ?thesis using Cons.IH by (auto split: option.splits)
  next
    case FromResChan
    show ?thesis
    proof (cases "CheckParent obj \<and> po \<noteq> None \<and>
         (case pr of None \<Rightarrow> True | Some p \<Rightarrow> StatusCode (heap w p) = 0)")
      case True
      with FromResChan Cons.IH [of pc pr] show ?thesis by simp
    next
      case False
      then have "po = None \<or> \<not> CheckParent obj \<or> pr \<noteq> None" by (auto split: option.splits)
      from handleNotFound_returns [OF this] obtain o1 w1 where
        "handleNotFound E r obj po tab pr res w = Some (o1, w1)" by blast
      with False FromResChan show ?thesis
        by (auto split: list.splits select.splits)
    qed
  qed
qed

lemma handleGET_returns: "\<exists>out w'. handleGET E r req obj ss w = Some (out, w')"
  using handleGET_loop_returns
  by (auto simp: handleGET_def split: prod.splits option.splits)

lemma collapseGET_returns: "\<exists>out w'. collapseGET E r req obj ls ss w = Some (out, w')"
proof (cases "lock_Lock E (Key obj)")
  case True
  with handleGET_returns [of E r req obj ss "emit (LockCall (Key obj)) w"] show ?thesis
    by (auto simp: collapseGET_def Let_def)
next
  case False
  with handleGET_returns
    [of E r req obj ss "emit (NewTimer (lockTimeout r)) (emit (LockCall (Key obj)) w)"]
  show ?thesis
    by (cases ls) (auto simp: collapseGET_def Let_def split: prod.splits option.splits)
qed

lemma process_returns:
  assumes "Key obj \<noteq> []"
  shows "\<exists>out w'. process E r req obj sch w = Some (out, w')"
proof -
  obtain x w1 where rc: "responseCacheGet E obj w = (x, w1)"
    by (cases "responseCacheGet E obj w")
  obtain res0 w2 where
    "(if HasTransform obj
      then collapseGET E r req obj (lockSel sch) (getSel sch) w1
      else handleGET E r req obj (getSel sch) w1) = Some (res0, w2)"
    using collapseGET_returns [of E r req obj "lockSel sch" "getSel sch" w1]
      handleGET_returns [of E r req obj "getSel sch" w1]
    by (cases "HasTransform obj") auto
  with assms rc show ?thesis
    by (cases x) (auto simp: process_def split: prod.splits)
qed

lemma Process_returns:
  assumes "Key (PreProcess E (FillWithRequest E req obj) req) \<noteq> []"
  shows "\<exists>out w'. Process E r req obj sch w = Some (out, w')"
proof -
  from process_returns [OF assms] obtain res w1 where
    "process E r req (PreProcess E (FillWithRequest E req obj) req) sch (emit PreProcessHook w) =
       Some (res, w1)"
    by blast
  then show ?thesis
    by (cases "replyWithError E r (PreProcess E (FillWithRequest E req obj) req) 499
          errContextCancel (Close res (emit CloseCancel (emit CtxDoneTaken w1)))")
      (simp add: Process_def Let_def)
qed

subsection \<open>Filling the cache\<close>

text \<open>
  C4 as stated fails in both directions: a cacheable response with ContentLength -2 gets a
  cache write started (the code compares with -1 only), and a cacheable response with
  ContentLength 10, below MaxCacheItemSize, gets none when Copy fails.
\<close>

theorem C4_schedule_differs:
  "IsCacheable envNegativeLength (storage_Get envNegativeLength parent0) \<and>
   contentLengthOf (process envNegativeLength rp0 get0 parent0 sched0 world0) = Some (- 2) \<and>
   traceOf (process envNegativeLength rp0 get0 parent0 sched0 world0) =
     Some [CacheGet parent0, StorageGet parent0, GoCacheSet parent0 1] \<and>
   IsCacheable envCopyFails (storage_Get envCopyFails parent0) \<and>
   contentLengthOf (process envCopyFails rp0 get0 parent0 sched0 world0) = Some 10 \<and>
   10 < MaxCacheItemSize (serverConfig rp0) \<and>
   traceOf (process envCopyFails rp0 get0 parent0 sched0 world0) =
     Some [CacheGet parent0, StorageGet parent0]"
  by (simp add: ex_defs resp_defs proc_defs obs_defs NewRequestProcessor_def Let_def)

text \<open>
  C4, amended. On the GET pipeline (GET or HEAD, a key, a miss of the first cache lookup),
  when process returns, the cache write is started exactly when the response it returns is
  cacheable, its ContentLength is not -1, its ContentLength is below MaxCacheItemSize and
  Copy succeeds; it is then the last effect, it is given a copy that is another response
  than the one returned, with the same content, and nothing before it starts a cache write;
  otherwise no cache write is started at all.
\<close>

theorem C4_cache_population:
  assumes m: "Method req = ''GET'' \<or> Method req = ''HEAD''"
    and k: "Key obj \<noteq> []"
    and miss: "cache_Get E (lookups w) obj = None"
    and pr: "process E r req obj sch w = Some (out, w')"
  shows "\<exists>pre. (\<forall>e \<in> set pre. \<not> isGoCacheSet e) \<and>
     (if IsCacheable E (heap w' out) \<and> ContentLength (heap w' out) \<noteq> -1 \<and>
         ContentLength (heap w' out) < MaxCacheItemSize (serverConfig r) \<and>
         \<not> CopyFails E (heap w' out)
      then \<exists>cpy. trace w' = trace w @ pre @ [GoCacheSet obj cpy] \<and> cpy \<noteq> out \<and>
             heap w' cpy = heap w' out
      else trace w' = trace w @ pre)"
proof -
  obtain x w1 where rc: "responseCacheGet E obj w = (x, w1)"
    by (cases "responseCacheGet E obj w")
  note f = extends_responseCacheGet [OF rc]
  have x: "x = None" using f miss by (cases x) auto
  obtain res0 w2 where
    inner: "(if HasTransform obj
             then collapseGET E r req obj (lockSel sch) (getSel sch) w1
             else handleGET E r req obj (getSel sch) w1) = Some (res0, w2)"
    and rest: "(case updateHeaders E obj res0 w2 of
                  (res, w3) \<Rightarrow> Some (cacheResponse E r obj res w3)) = Some (out, w')"
    using m k pr rc x by (auto simp: process_def split: option.splits)
  obtain w3 where uh: "updateHeaders E obj res0 w2 = (res0, w3)"
    using updateHeaders_frame [of E obj res0 w2] by (cases "updateHeaders E obj res0 w2") auto
  with rest have cr: "cacheResponse E r obj res0 w3 = (out, w')" by simp
  from pipeline_result [OF inner] obtain n where
    o: "res0 < nextRef w2" and e: "extends w1 w2 n" and ns: "\<forall>e \<in> set n. \<not> isGoCacheSet e"
    by blast
  have e3: "extends w2 w3 []" using updateHeaders_frame [OF uh] by simp
  have o3: "res0 < nextRef w3" using o e3 by (auto simp: extends_def)
  have t3: "trace w3 = trace w @ ([CacheGet obj] @ n)"
    using f e e3 by (auto simp: extends_def)
  note c = cacheResponse_frame [OF cr o3]
  have out: "out = res0" and hp: "heap w' out = heap w3 res0" using c by auto
  show ?thesis
  proof (intro exI [of _ "[CacheGet obj] @ n"] conjI)
    show "\<forall>e \<in> set ([CacheGet obj] @ n). \<not> isGoCacheSet e" using ns by simp
    show "if IsCacheable E (heap w' out) \<and> ContentLength (heap w' out) \<noteq> -1 \<and>
         ContentLength (heap w' out) < MaxCacheItemSize (serverConfig r) \<and>
         \<not> CopyFails E (heap w' out)
      then \<exists>cpy. trace w' = trace w @ ([CacheGet obj] @ n) @ [GoCacheSet obj cpy] \<and> cpy \<noteq> out \<and>
             heap w' cpy = heap w' out
      else trace w' = trace w @ ([CacheGet obj] @ n)"
      using c t3 unfolding hp out by (auto simp: extends_def split: if_splits)
  qed
qed

theorem C4_cache_population_witness:
  "Method get0 = ''GET'' \<and> Key parent0 \<noteq> [] \<and>
   cache_Get envLength10 (lookups world0) parent0 = None \<and>
   map_option fst (process envLength10 rp0 get0 parent0 sched0 world0) = Some 0 \<and>
   contentLengthOf (process envLength10 rp0 get0 parent0 sched0 world0) = Some 10 \<and>
   traceOf (process envLength10 rp0 get0 parent0 sched0 world0) =
     Some [CacheGet parent0, StorageGet parent0, GoCacheSet parent0 1]"
proof -
  define R where "R = the (process envLength10 rp0 get0 parent0 sched0 world0)"
  have h: "process envLength10 rp0 get0 parent0 sched0 world0 = Some (fst R, snd R)"
    unfolding R_def
    by (simp add: ex_defs resp_defs proc_defs NewRequestProcessor_def Let_def)
  have m: "Method get0 = ''GET'' \<or> Method get0 = ''HEAD''" by (simp add: get0_def)
  have k: "Key parent0 \<noteq> []" by (simp add: parent0_def)
  have c: "cache_Get envLength10 (lookups world0) parent0 = None" by (simp add: ex_defs)
  from C4_cache_population [OF m k c h] m k c show ?thesis
    by (simp add: ex_defs resp_defs proc_defs obs_defs NewRequestProcessor_def Let_def)
qed

subsection \<open>A parent that is missing\<close>

text \<open>
  C1 as stated fails: the HEAD of the parent is issued and storage answers 404, but the
  select of handleGET, or the select of Process, takes the Done channel of the context, and
  the response of Process has status 499.
\<close>

theorem C1_context_done_gives_499:
  "StatusCode (storage_Head envHead404 parent0) = 404 \<and>
   tracedIn (StorageHead parent0) (Process envHead404 rp0 get0 child0 schedSelectDone world0) \<and>
   statusOf (Process envHead404 rp0 get0 child0 schedSelectDone world0) = Some 499 \<and>
   tracedIn (StorageHead parent0) (Process envHead404 rp0 get0 child0 schedProcessDone world0) \<and>
   statusOf (Process envHead404 rp0 get0 child0 schedProcessDone world0) = Some 499"
  by (simp add: ex_defs resp_defs proc_defs obs_defs NewRequestProcessor_def Let_def)

text \<open>
  C1, amended. Whenever Process issues the HEAD of a parent (in handleGET when CheckParent
  is set, or in handleNotFound) and storage answers it with 404, the response of Process has
  status 404, whatever the status of the derivative, unless the Done channel of the context
  was taken: then the response has status 499.
\<close>

theorem C1_parent_404:
  assumes "Process E r req obj sch w = Some (out, w')"
    and "trace w' = trace w @ new"
    and "StorageHead p \<in> set new"
    and "StatusCode (storage_Head E p) = 404"
  shows "StatusCode (heap w' out) = 404 \<or>
     (StatusCode (heap w' out) = 499 \<and> CtxDoneTaken \<in> set new)"
proof -
  from Process_result [OF assms(1)] obtain n where
    e: "extends w w' n" and a: "answers404 E n out w'" by blast
  have "n = new" using e assms(2) by (simp add: extends_def)
  with a assms(3,4) show ?thesis by (auto simp: answers404_def)
qed

theorem C1_parent_404_witness:
  "StatusCode (storage_Head envHead404 parent0) = 404 \<and>
   tracedIn (StorageHead parent0) (Process envHead404 rp0 get0 child0 sched0 world0) \<and>
   statusOf (Process envHead404 rp0 get0 child0 sched0 world0) = Some 404"
proof -
  define R where "R = the (Process envHead404 rp0 get0 child0 sched0 world0)"
  have h: "Process envHead404 rp0 get0 child0 sched0 world0 = Some (fst R, snd R)"
    unfolding R_def
    by (simp add: ex_defs resp_defs proc_defs NewRequestProcessor_def Let_def)
  have t: "trace (snd R) = trace world0 @
      [PreProcessHook, CacheGet child0, LockCall ''/image.jpg-small'', StorageGet child0,
       StorageHead parent0, NotifyAndRelease ''/image.jpg-small'' 1, PostProcessHook 1]"
    unfolding R_def
    by (simp add: ex_defs resp_defs proc_defs NewRequestProcessor_def Let_def)
  have m: "StorageHead parent0 \<in> set
      [PreProcessHook, CacheGet child0, LockCall ''/image.jpg-small'', StorageGet child0,
       StorageHead parent0, NotifyAndRelease ''/image.jpg-small'' 1, PostProcessHook 1]"
    by simp
  have s: "StatusCode (storage_Head envHead404 parent0) = 404"
    by (simp add: ex_defs resp_defs)
  have n: "CtxDoneTaken \<notin> set
      [PreProcessHook, CacheGet child0, LockCall ''/image.jpg-small'', StorageGet child0,
       StorageHead parent0, NotifyAndRelease ''/image.jpg-small'' 1, PostProcessHook 1]"
    by simp
  from C1_parent_404 [OF h t m s] n have "StatusCode (heap (snd R) (fst R)) = 404"
    by blast
  with s h t m show ?thesis
    by (simp add: statusOf_def tracedIn_def case_prod_unfold)
qed

end
